theory Spec2Isabelle
  imports Main "HOL-Library.Word"
begin

section \<open>Students API (HW12/main.py): authentication, sessions, cache and student records\<close>

text \<open>
  The embedding follows \<^verbatim>\<open>src/HW12/main.py\<close>. Library functions that the program calls
  but does not define are parameters of the model: the SHA-256 digest
  (\<^verbatim>\<open>hashlib.sha256(s.encode()).digest()\<close>) is an argument \<open>H\<close>, the random bytes and
  random tokens drawn from \<^verbatim>\<open>secrets\<close> and the clock \<^verbatim>\<open>datetime.utcnow()\<close> are
  arguments of the operation that draws them. Exceptions are values of a sum type.
\<close>

subsection \<open>Exceptions\<close>

datatype error =
  ValueError
| IntegrityError
| OverflowError
| HTTPException int string

subsection \<open>Passwords: \<^verbatim>\<open>AuthManager.hash_password\<close> and \<^verbatim>\<open>AuthManager.verify_password\<close>\<close>

type_synonym byte = "8 word"

definition hexdigit :: "nat \<Rightarrow> char" where
  "hexdigit n = ''0123456789abcdef'' ! (n mod 16)"

definition hex_byte :: "byte \<Rightarrow> string" where
  "hex_byte b = [hexdigit (unat b div 16), hexdigit (unat b mod 16)]"

text \<open>\<^verbatim>\<open>bytes.hex()\<close>, which both \<^verbatim>\<open>hexdigest()\<close> and \<^verbatim>\<open>secrets.token_hex\<close> apply to their bytes.\<close>

definition hex :: "byte list \<Rightarrow> string" where
  "hex bs = concat (map hex_byte bs)"

definition hexdigest :: "(string \<Rightarrow> byte list) \<Rightarrow> string \<Rightarrow> string" where
  "hexdigest H s = hex (H s)"

text \<open>\<^verbatim>\<open>secrets.token_hex(16)\<close> on the random bytes \<open>rnd\<close> it drew.\<close>

definition token_hex :: "byte list \<Rightarrow> string" where
  "token_hex rnd = hex rnd"

text \<open>\<^verbatim>\<open>str.split(sep)\<close> for a one-character separator: every occurrence splits.\<close>

fun split_acc :: "char \<Rightarrow> string \<Rightarrow> string \<Rightarrow> string list" where
  "split_acc c cur [] = [rev cur]"
| "split_acc c cur (x # xs) =
     (if x = c then rev cur # split_acc c [] xs else split_acc c (x # cur) xs)"

definition split_on :: "char \<Rightarrow> string \<Rightarrow> string list" where
  "split_on c s = split_acc c [] s"

definition hash_password :: "(string \<Rightarrow> byte list) \<Rightarrow> byte list \<Rightarrow> string \<Rightarrow> string" where
  "hash_password H rnd password =
     (let salt = token_hex rnd;
          password_hash = hexdigest H (password @ salt)
      in salt @ '':'' @ password_hash)"

text \<open>
  The body of the \<^verbatim>\<open>try\<close> block: the tuple assignment \<^verbatim>\<open>salt, hash_value = ...\<close> raises
  \<^verbatim>\<open>ValueError\<close> unless the split gives exactly two parts.
\<close>

definition verify_password_try :: "(string \<Rightarrow> byte list) \<Rightarrow> string \<Rightarrow> string \<Rightarrow> error + bool" where
  "verify_password_try H password password_hash =
     (case split_on CHR '':'' password_hash of
        [salt, hash_value] \<Rightarrow> Inr (hexdigest H (password @ salt) = hash_value)
      | _ \<Rightarrow> Inl ValueError)"

text \<open>The bare \<^verbatim>\<open>except:\<close> turns every exception of the body into \<^verbatim>\<open>False\<close>.\<close>

definition verify_password :: "(string \<Rightarrow> byte list) \<Rightarrow> string \<Rightarrow> string \<Rightarrow> bool" where
  "verify_password H password password_hash =
     (case verify_password_try H password password_hash of
        Inl _ \<Rightarrow> False
      | Inr b \<Rightarrow> b)"

subsection \<open>Tables: \<^verbatim>\<open>Student\<close>, \<^verbatim>\<open>User\<close>, \<^verbatim>\<open>Session\<close>\<close>

text \<open>
  A \<^verbatim>\<open>datetime\<close> is its number of microseconds, the resolution of the type. Each table
  is the list of its rows in rowid order. The columns keep their names; the three primary
  keys, all called \<^verbatim>\<open>id\<close> in the source, are \<open>student_id\<close>, \<open>uid\<close> and \<open>sess_id\<close>, and the
  \<^verbatim>\<open>created_at\<close> and \<^verbatim>\<open>is_active\<close> columns of \<^verbatim>\<open>Session\<close> are \<open>sess_created_at\<close> and
  \<open>sess_is_active\<close>.
\<close>

type_synonym time = int

record student_row =
  student_id :: int
  last_name :: string
  first_name :: string
  faculty :: string
  course :: string
  score :: int

record user_row =
  uid :: int
  username :: string
  email :: string
  password_hash :: string
  is_read_only :: bool
  is_active :: bool
  created_at :: time

record session_row =
  sess_id :: int
  user_id :: int
  token :: string
  refresh_token :: string
  sess_created_at :: time
  expires_at :: time
  sess_is_active :: bool

text \<open>
  The values that travel through the cache and the responses: what \<^verbatim>\<open>json.dumps\<close> writes
  and \<^verbatim>\<open>json.loads\<close> reads back.
\<close>

datatype json =
  JNull
| JBool bool
| JInt int
| JStr string
| JList "json list"
| JDict "(string \<times> json) list"

text \<open>
  The process state: the three tables of \<^verbatim>\<open>students.db\<close> and the Redis store. \<open>redis\<close>
  is \<open>None\<close> when \<^verbatim>\<open>REDIS_AVAILABLE\<close> is false; otherwise it holds, for each key, the value
  and the instant at which the key expires.
\<close>

record state =
  users :: "user_row list"
  sessions :: "session_row list"
  students :: "student_row list"
  redis :: "(string \<times> json \<times> time) list option"

text \<open>
  The rowid SQLite gives an inserted row of an \<^verbatim>\<open>INTEGER PRIMARY KEY\<close> table: one more
  than the largest rowid of the table.
\<close>

definition next_id :: "int list \<Rightarrow> int" where
  "next_id ids = fold max ids 0 + 1"

text \<open>
  An SQLite \<^verbatim>\<open>INTEGER\<close> is a signed 64-bit number, and a Python \<^verbatim>\<open>int\<close> is unbounded:
  binding an integer outside that range to a statement, as a value to store or as a value
  to compare with, raises \<^verbatim>\<open>OverflowError\<close>. The exception leaves the function through
  its \<^verbatim>\<open>finally\<close>, the session is closed and nothing is written. A function that can
  raise returns \<open>Inl\<close> of the exception in that case, and the database is then the one
  it was called with.
\<close>

definition in_int64 :: "int \<Rightarrow> bool" where
  "in_int64 n \<longleftrightarrow> - (2 ^ 63) \<le> n \<and> n < 2 ^ 63"

text \<open>\<^verbatim>\<open>timedelta(hours=24)\<close>.\<close>

definition hours24 :: time where
  "hours24 = 24 * 3600 * 1000000"

subsection \<open>\<^verbatim>\<open>AuthManager\<close>\<close>

record AuthUser =
  au_user_id :: int
  au_username :: string
  au_is_read_only :: bool
  au_is_active :: bool

record TokenDict =
  td_access_token :: string
  td_refresh_token :: string
  td_user_id :: int
  td_username :: string
  td_is_read_only :: bool

text \<open>
  \<^verbatim>\<open>register_user\<close>. \<open>rnd\<close> are the bytes \<^verbatim>\<open>secrets.token_hex\<close> draws for the salt. The
  function returns the new state and \<open>None\<close> where the source returns \<^verbatim>\<open>None\<close>; the
  returned row stands for the dictionary of its columns (the source leaves the hash out).
\<close>

definition register_user ::
  "(string \<Rightarrow> byte list) \<Rightarrow> state \<Rightarrow> time \<Rightarrow> byte list \<Rightarrow> string \<Rightarrow> string \<Rightarrow> string \<Rightarrow> bool
   \<Rightarrow> state \<times> user_row option" where
  "register_user H st now rnd username' email' password is_read_only' =
     (case find (\<lambda>u. username u = username' \<or> email u = email') (users st) of
        Some existing \<Rightarrow> (st, None)
      | None \<Rightarrow>
          let user = \<lparr>uid = next_id (map uid (users st)),
                      username = username',
                      email = email',
                      password_hash = hash_password H rnd password,
                      is_read_only = is_read_only',
                      is_active = True,
                      created_at = now\<rparr>
          in (st\<lparr>users := users st @ [user]\<rparr>, Some user))"

text \<open>
  \<^verbatim>\<open>login_user\<close>. \<open>toks\<close> is the pair \<^verbatim>\<open>generate_tokens()\<close> returns. The columns \<^verbatim>\<open>token\<close>
  and \<^verbatim>\<open>refresh_token\<close> are declared unique, so the commit raises \<^verbatim>\<open>IntegrityError\<close>
  when a generated token is already stored; the transaction is then rolled back.
\<close>

definition login_user ::
  "(string \<Rightarrow> byte list) \<Rightarrow> state \<Rightarrow> time \<Rightarrow> string \<times> string \<Rightarrow> string \<Rightarrow> string
   \<Rightarrow> error + state \<times> TokenDict option" where
  "login_user H st now toks username' password =
     (case find (\<lambda>u. username u = username') (users st) of
        None \<Rightarrow> Inr (st, None)
      | Some user \<Rightarrow>
          if \<not> is_active user then Inr (st, None)
          else if \<not> verify_password H password (password_hash user) then Inr (st, None)
          else
            let access_token = fst toks;
                refresh_token' = snd toks;
                expires_at' = now + hours24;
                db_session = \<lparr>sess_id = next_id (map sess_id (sessions st)),
                              user_id = uid user,
                              token = access_token,
                              refresh_token = refresh_token',
                              sess_created_at = now,
                              expires_at = expires_at',
                              sess_is_active = True\<rparr>
            in if access_token \<in> set (map token (sessions st))
                  \<or> refresh_token' \<in> set (map refresh_token (sessions st))
               then Inl IntegrityError
               else Inr (st\<lparr>sessions := sessions st @ [db_session]\<rparr>,
                         Some \<lparr>td_access_token = access_token,
                               td_refresh_token = refresh_token',
                               td_user_id = uid user,
                               td_username = username user,
                               td_is_read_only = is_read_only user\<rparr>))"

text \<open>\<^verbatim>\<open>verify_token\<close>, at the instant \<open>now\<close> that \<^verbatim>\<open>datetime.utcnow()\<close> returns.\<close>

definition verify_token :: "state \<Rightarrow> time \<Rightarrow> string \<Rightarrow> AuthUser option" where
  "verify_token st now token' =
     (case find (\<lambda>s. token s = token' \<and> sess_is_active s = True) (sessions st) of
        None \<Rightarrow> None
      | Some db_session \<Rightarrow>
          if expires_at db_session < now then None
          else
            (case find (\<lambda>u. uid u = user_id db_session) (users st) of
               None \<Rightarrow> None
             | Some user \<Rightarrow>
                 if \<not> is_active user then None
                 else Some \<lparr>au_user_id = uid user,
                            au_username = username user,
                            au_is_read_only = is_read_only user,
                            au_is_active = is_active user\<rparr>))"

text \<open>
  \<^verbatim>\<open>refresh_token_user\<close>. The three assignments change the loaded row, and the commit
  writes them to the row with its primary key; the unique columns make the commit raise
  when another row already holds one of the new tokens.
\<close>

definition refresh_token_user ::
  "state \<Rightarrow> time \<Rightarrow> string \<times> string \<Rightarrow> string \<Rightarrow> error + state \<times> TokenDict option" where
  "refresh_token_user st now toks refresh_token' =
     (case find (\<lambda>s. refresh_token s = refresh_token' \<and> sess_is_active s = True) (sessions st) of
        None \<Rightarrow> Inr (st, None)
      | Some db_session \<Rightarrow>
          (case find (\<lambda>u. uid u = user_id db_session) (users st) of
             None \<Rightarrow> Inr (st, None)
           | Some user \<Rightarrow>
               if \<not> is_active user then Inr (st, None)
               else
                 let new_access_token = fst toks;
                     new_refresh_token = snd toks;
                     new_expires_at = now + hours24;
                     updated = db_session\<lparr>token := new_access_token,
                                          refresh_token := new_refresh_token,
                                          expires_at := new_expires_at\<rparr>
                 in if \<exists>s \<in> set (sessions st). sess_id s \<noteq> sess_id db_session
                          \<and> (token s = new_access_token \<or> refresh_token s = new_refresh_token)
                    then Inl IntegrityError
                    else Inr (st\<lparr>sessions :=
                                   map (\<lambda>s. if sess_id s = sess_id db_session then updated else s)
                                       (sessions st)\<rparr>,
                              Some \<lparr>td_access_token = new_access_token,
                                    td_refresh_token = new_refresh_token,
                                    td_user_id = uid user,
                                    td_username = username user,
                                    td_is_read_only = is_read_only user\<rparr>)))"

text \<open>\<^verbatim>\<open>logout_user\<close>: the lookup does not filter on \<^verbatim>\<open>is_active\<close>.\<close>

definition logout_user :: "state \<Rightarrow> string \<Rightarrow> state \<times> bool" where
  "logout_user st token' =
     (case find (\<lambda>s. token s = token') (sessions st) of
        None \<Rightarrow> (st, False)
      | Some db_session \<Rightarrow>
          (st\<lparr>sessions :=
                map (\<lambda>s. if sess_id s = sess_id db_session then s\<lparr>sess_is_active := False\<rparr> else s)
                    (sessions st)\<rparr>,
           True))"

text \<open>
  What the schema declares: primary keys are unique, and so are \<^verbatim>\<open>username\<close>, \<^verbatim>\<open>email\<close>,
  \<^verbatim>\<open>token\<close> and \<^verbatim>\<open>refresh_token\<close>. Every reachable database satisfies it.
\<close>

definition schema_ok :: "state \<Rightarrow> bool" where
  "schema_ok st \<longleftrightarrow>
     distinct (map student_id (students st))
     \<and> distinct (map uid (users st))
     \<and> distinct (map username (users st))
     \<and> distinct (map email (users st))
     \<and> distinct (map sess_id (sessions st))
     \<and> distinct (map token (sessions st))
     \<and> distinct (map refresh_token (sessions st))"

subsection \<open>\<^verbatim>\<open>CacheManager\<close>\<close>

text \<open>
  The keys Redis returns for \<^verbatim>\<open>KEYS pattern\<close>: glob matching, of which the program uses
  literal characters and \<open>*\<close> (any run of characters); \<open>?\<close> (any one character) is
  modelled too.
\<close>

fun glob_match :: "string \<Rightarrow> string \<Rightarrow> bool" where
  "glob_match [] [] = True"
| "glob_match [] (c # cs) = False"
| "glob_match (p # ps) [] = (p = CHR ''*'' \<and> glob_match ps [])"
| "glob_match (p # ps) (c # cs) =
     (if p = CHR ''*'' then glob_match ps (c # cs) \<or> glob_match (p # ps) cs
      else (p = CHR ''?'' \<or> p = c) \<and> glob_match ps cs)"

text \<open>\<^verbatim>\<open>CACHE_TTL\<close>: one hour.\<close>

definition CACHE_TTL :: time where
  "CACHE_TTL = 3600 * 1000000"

text \<open>
  \<^verbatim>\<open>make_cache_key\<close>. \<open>khash\<close> stands for the library part of the key,
  \<^verbatim>\<open>str(hash(json.dumps(params, sort_keys=True, default=str)))\<close>; an absent or empty
  \<^verbatim>\<open>params\<close> gives the key without it.
\<close>

definition make_cache_key :: "(json \<Rightarrow> string) \<Rightarrow> string \<Rightarrow> json option \<Rightarrow> string" where
  "make_cache_key khash endpoint params =
     (case params of
        None \<Rightarrow> ''cache:'' @ endpoint
      | Some p \<Rightarrow>
          if p = JDict [] then ''cache:'' @ endpoint
          else ''cache:'' @ endpoint @ '':'' @ khash p)"

definition cache_get :: "state \<Rightarrow> time \<Rightarrow> string \<Rightarrow> json option" where
  "cache_get st now key =
     (case redis st of
        None \<Rightarrow> None
      | Some store \<Rightarrow>
          (case map_of store key of
             None \<Rightarrow> None
           | Some (data, expiry) \<Rightarrow> if now < expiry then Some data else None))"

definition cache_set :: "state \<Rightarrow> time \<Rightarrow> string \<Rightarrow> json \<Rightarrow> state \<times> bool" where
  "cache_set st now key val =
     (case redis st of
        None \<Rightarrow> (st, False)
      | Some store \<Rightarrow>
          (st\<lparr>redis := Some ((key, val, now + CACHE_TTL) # filter (\<lambda>e. fst e \<noteq> key) store)\<rparr>,
           True))"

definition invalidate_pattern :: "state \<Rightarrow> time \<Rightarrow> string \<Rightarrow> state \<times> int" where
  "invalidate_pattern st now pattern =
     (case redis st of
        None \<Rightarrow> (st, 0)
      | Some store \<Rightarrow>
          let keys = map fst (filter (\<lambda>e. now < snd (snd e) \<and> glob_match pattern (fst e)) store)
          in if keys \<noteq> []
             then (st\<lparr>redis := Some (filter (\<lambda>e. fst e \<notin> set keys) store)\<rparr>, int (length keys))
             else (st, 0))"

subsection \<open>\<^verbatim>\<open>StudentManager\<close>\<close>

definition student_dict :: "student_row \<Rightarrow> json" where
  "student_dict s =
     JDict [(''id'', JInt (student_id s)),
            (''last_name'', JStr (last_name s)),
            (''first_name'', JStr (first_name s)),
            (''faculty'', JStr (faculty s)),
            (''course'', JStr (course s)),
            (''score'', JInt (score s))]"

definition get_students_by_faculty :: "state \<Rightarrow> string \<Rightarrow> json list" where
  "get_students_by_faculty st faculty' =
     map student_dict (filter (\<lambda>s. faculty s = faculty') (students st))"

text \<open>
  \<^verbatim>\<open>SELECT DISTINCT course\<close> scans the table in rowid order and gives each course where
  it first occurs (\<open>remdups\<close> keeps last occurrences, hence the two reversals).
\<close>

definition get_unique_courses :: "state \<Rightarrow> string list" where
  "get_unique_courses st = rev (remdups (rev (map course (students st))))"

definition get_low_score_students_by_course :: "state \<Rightarrow> string \<Rightarrow> int \<Rightarrow> error + json list" where
  "get_low_score_students_by_course st course' threshold =
     (if \<not> in_int64 threshold then Inl OverflowError
      else Inr (map student_dict
                  (filter (\<lambda>s. course s = course' \<and> score s < threshold) (students st))))"

text \<open>\<^verbatim>\<open>create_student\<close>: the commit binds \<^verbatim>\<open>score\<close> to the \<^verbatim>\<open>INSERT\<close>.\<close>

definition create_student ::
  "state \<Rightarrow> string \<Rightarrow> string \<Rightarrow> string \<Rightarrow> string \<Rightarrow> int \<Rightarrow> error + state \<times> json" where
  "create_student st last_name' first_name' faculty' course' score' =
     (let student = \<lparr>student_id = next_id (map student_id (students st)),
                     last_name = last_name',
                     first_name = first_name',
                     faculty = faculty',
                     course = course',
                     score = score'\<rparr>
      in if \<not> in_int64 score' then Inl OverflowError
         else Inr (st\<lparr>students := students st @ [student]\<rparr>, student_dict student))"

definition get_student_by_id :: "state \<Rightarrow> int \<Rightarrow> error + json option" where
  "get_student_by_id st student_id' =
     (if \<not> in_int64 student_id' then Inl OverflowError
      else
        (case find (\<lambda>s. student_id s = student_id') (students st) of
           None \<Rightarrow> Inr None
         | Some student \<Rightarrow> Inr (Some (student_dict student))))"

definition get_all_students :: "state \<Rightarrow> json list" where
  "get_all_students st = map student_dict (students st)"

text \<open>
  \<^verbatim>\<open>StudentUpdate\<close>: every field is optional, \<open>None\<close> when the request leaves it out or
  sends \<^verbatim>\<open>null\<close>.
\<close>

record StudentUpdate =
  upd_last_name :: "string option"
  upd_first_name :: "string option"
  upd_faculty :: "string option"
  upd_course :: "string option"
  upd_score :: "int option"

text \<open>
  \<^verbatim>\<open>update_student\<close>. \<^verbatim>\<open>kwargs\<close> holds the five keyword arguments the handler passes, in
  that order; \<^verbatim>\<open>hasattr\<close> holds for each of them, so the loop sets an attribute exactly
  when its value is not \<^verbatim>\<open>None\<close>. The query binds \<^verbatim>\<open>student_id\<close>; the commit writes the
  row with its primary key and binds the score that was set.
\<close>

definition apply_kwargs :: "student_row \<Rightarrow> StudentUpdate \<Rightarrow> student_row" where
  "apply_kwargs student kwargs =
     (let s1 = (case upd_last_name kwargs of None \<Rightarrow> student | Some v \<Rightarrow> student\<lparr>last_name := v\<rparr>);
          s2 = (case upd_first_name kwargs of None \<Rightarrow> s1 | Some v \<Rightarrow> s1\<lparr>first_name := v\<rparr>);
          s3 = (case upd_faculty kwargs of None \<Rightarrow> s2 | Some v \<Rightarrow> s2\<lparr>faculty := v\<rparr>);
          s4 = (case upd_course kwargs of None \<Rightarrow> s3 | Some v \<Rightarrow> s3\<lparr>course := v\<rparr>);
          s5 = (case upd_score kwargs of None \<Rightarrow> s4 | Some v \<Rightarrow> s4\<lparr>score := v\<rparr>)
      in s5)"

definition update_student ::
  "state \<Rightarrow> int \<Rightarrow> StudentUpdate \<Rightarrow> error + state \<times> json option" where
  "update_student st student_id' kwargs =
     (if \<not> in_int64 student_id' then Inl OverflowError
      else
        (case find (\<lambda>s. student_id s = student_id') (students st) of
           None \<Rightarrow> Inr (st, None)
         | Some student \<Rightarrow>
             let student' = apply_kwargs student kwargs
             in if (case upd_score kwargs of None \<Rightarrow> False | Some v \<Rightarrow> \<not> in_int64 v)
                then Inl OverflowError
                else Inr (st\<lparr>students :=
                              map (\<lambda>s. if student_id s = student_id student then student' else s)
                                  (students st)\<rparr>,
                          Some (student_dict student'))))"

definition delete_student :: "state \<Rightarrow> int \<Rightarrow> error + state \<times> bool" where
  "delete_student st student_id' =
     (if \<not> in_int64 student_id' then Inl OverflowError
      else
        (case find (\<lambda>s. student_id s = student_id') (students st) of
           None \<Rightarrow> Inr (st, False)
         | Some student \<Rightarrow>
             Inr (st\<lparr>students := filter (\<lambda>s. student_id s \<noteq> student_id student) (students st)\<rparr>,
                  True)))"

text \<open>
  A row of the CSV file as \<^verbatim>\<open>csv.DictReader\<close> gives it; \<open>csv_score\<close> is the value of
  \<^verbatim>\<open>int(row['...'])\<close>, \<open>None\<close> when it raises. A file system maps a path to the rows of
  the file, \<open>None\<close> when the file does not exist. Both background functions catch every
  exception and report it; the rows added or deleted before it are not committed.
\<close>

record csv_row =
  csv_last_name :: string
  csv_first_name :: string
  csv_faculty :: string
  csv_course :: string
  csv_score :: "int option"

datatype task_result = Completed int | FileNotFound | OtherError

fun add_rows :: "state \<Rightarrow> csv_row list \<Rightarrow> state option" where
  "add_rows st [] = Some st"
| "add_rows st (row # rows) =
     (case csv_score row of
        None \<Rightarrow> None
      | Some n \<Rightarrow>
          (case create_student st (csv_last_name row) (csv_first_name row)
                  (csv_faculty row) (csv_course row) n of
             Inl e \<Rightarrow> None
           | Inr (st', result) \<Rightarrow> add_rows st' rows))"

definition populate_from_csv_background ::
  "(string \<Rightarrow> csv_row list option) \<Rightarrow> state \<Rightarrow> time \<Rightarrow> string \<Rightarrow> state \<times> task_result" where
  "populate_from_csv_background fs st now csv_file =
     (case fs csv_file of
        None \<Rightarrow> (st, FileNotFound)
      | Some rows \<Rightarrow>
          (case add_rows st rows of
             None \<Rightarrow> (st, OtherError)
           | Some st' \<Rightarrow>
               (fst (invalidate_pattern st' now ''cache:students*''), Completed (int (length rows)))))"

fun delete_loop :: "state \<Rightarrow> int list \<Rightarrow> int \<Rightarrow> error + state \<times> int" where
  "delete_loop st [] deleted_count = Inr (st, deleted_count)"
| "delete_loop st (student_id' # ids) deleted_count =
     (case delete_student st student_id' of
        Inl e \<Rightarrow> Inl e
      | Inr (st', True) \<Rightarrow> delete_loop st' ids (deleted_count + 1)
      | Inr (st', False) \<Rightarrow> delete_loop st' ids deleted_count)"

definition delete_students_by_ids :: "state \<Rightarrow> time \<Rightarrow> int list \<Rightarrow> state \<times> task_result" where
  "delete_students_by_ids st now student_ids =
     (case delete_loop st student_ids 0 of
        Inl e \<Rightarrow> (st, OtherError)
      | Inr (st', deleted_count) \<Rightarrow>
          (fst (invalidate_pattern st' now ''cache:students*''), Completed deleted_count))"

subsection \<open>Dependencies: \<^verbatim>\<open>get_current_user\<close> and \<^verbatim>\<open>check_read_only\<close>\<close>

text \<open>
  A header value reaches the handler decoded as Latin-1, one character per byte.
  \<^verbatim>\<open>str.split()\<close> splits at runs of the characters for which \<^verbatim>\<open>str.isspace\<close> holds and
  drops empty parts; \<^verbatim>\<open>str.lower\<close> moves the upper-case letters of that range.
\<close>

definition isspace :: "char \<Rightarrow> bool" where
  "isspace c \<longleftrightarrow> (of_char c :: nat) \<in> {9, 10, 11, 12, 13, 28, 29, 30, 31, 32, 133, 160}"

fun split_ws_acc :: "string \<Rightarrow> string \<Rightarrow> string list" where
  "split_ws_acc cur [] = (if cur = [] then [] else [rev cur])"
| "split_ws_acc cur (x # xs) =
     (if isspace x
      then (if cur = [] then split_ws_acc [] xs else rev cur # split_ws_acc [] xs)
      else split_ws_acc (x # cur) xs)"

definition split_ws :: "string \<Rightarrow> string list" where
  "split_ws s = split_ws_acc [] s"

definition lower_char :: "char \<Rightarrow> char" where
  "lower_char c =
     (let n = (of_char c :: nat)
      in if (65 \<le> n \<and> n \<le> 90) \<or> (192 \<le> n \<and> n \<le> 222 \<and> n \<noteq> 215)
         then char_of (n + 32) else c)"

definition lower :: "string \<Rightarrow> string" where
  "lower s = map lower_char s"

definition get_current_user :: "state \<Rightarrow> time \<Rightarrow> string option \<Rightarrow> error + AuthUser" where
  "get_current_user st now authorization =
     (case authorization of
        None \<Rightarrow> Inl (HTTPException 401 ''Not authenticated'')
      | Some header \<Rightarrow>
          if header = [] then Inl (HTTPException 401 ''Not authenticated'')
          else
            (case split_ws header of
               [scheme, token'] \<Rightarrow>
                 if lower scheme \<noteq> ''bearer''
                 then Inl (HTTPException 401 ''Invalid authentication scheme'')
                 else
                   (case verify_token st now token' of
                      None \<Rightarrow> Inl (HTTPException 401 ''Invalid or expired token'')
                    | Some user_info \<Rightarrow> Inr user_info)
             | _ \<Rightarrow> Inl (HTTPException 401 ''Invalid authorization header'')))"

definition check_read_only :: "state \<Rightarrow> time \<Rightarrow> string option \<Rightarrow> error + AuthUser" where
  "check_read_only st now authorization =
     (case get_current_user st now authorization of
        Inl e \<Rightarrow> Inl e
      | Inr user \<Rightarrow>
          if au_is_read_only user
          then Inl (HTTPException 403 ''User has read-only access'')
          else Inr user)"

subsection \<open>Authentication endpoints\<close>

text \<open>
  Every handler takes the state, the clock and the \<^verbatim>\<open>Authorization\<close> header where it has
  a dependency, and returns the new state with either the exception that ends the request
  or the value the handler returns.
\<close>

record UserRegister =
  reg_username :: string
  reg_email :: string
  reg_password :: string
  reg_is_read_only :: bool

record UserLogin =
  login_username :: string
  login_password :: string

definition register ::
  "(string \<Rightarrow> byte list) \<Rightarrow> state \<Rightarrow> time \<Rightarrow> byte list \<Rightarrow> UserRegister \<Rightarrow> state \<times> (error + user_row)" where
  "register H st now rnd user_data =
     (case register_user H st now rnd (reg_username user_data) (reg_email user_data)
             (reg_password user_data) (reg_is_read_only user_data) of
        (st', None) \<Rightarrow> (st', Inl (HTTPException 400 ''Username or email already exists''))
      | (st', Some result) \<Rightarrow> (st', Inr result))"

definition login ::
  "(string \<Rightarrow> byte list) \<Rightarrow> state \<Rightarrow> time \<Rightarrow> string \<times> string \<Rightarrow> UserLogin \<Rightarrow> state \<times> (error + TokenDict)" where
  "login H st now toks user_data =
     (case login_user H st now toks (login_username user_data) (login_password user_data) of
        Inl e \<Rightarrow> (st, Inl e)
      | Inr (st', None) \<Rightarrow> (st', Inl (HTTPException 401 ''Invalid username or password''))
      | Inr (st', Some result) \<Rightarrow> (st', Inr result))"

definition refresh_token_endpoint ::
  "state \<Rightarrow> time \<Rightarrow> string \<times> string \<Rightarrow> string \<Rightarrow> state \<times> (error + TokenDict)" where
  "refresh_token_endpoint st now toks refresh_token' =
     (case refresh_token_user st now toks refresh_token' of
        Inl e \<Rightarrow> (st, Inl e)
      | Inr (st', None) \<Rightarrow> (st', Inl (HTTPException 401 ''Invalid refresh token''))
      | Inr (st', Some result) \<Rightarrow> (st', Inr result))"

definition logout :: "state \<Rightarrow> time \<Rightarrow> string option \<Rightarrow> state \<times> (error + string)" where
  "logout st now authorization =
     (case get_current_user st now authorization of
        Inl e \<Rightarrow> (st, Inl e)
      | Inr user \<Rightarrow>
          (case split_ws (case authorization of None \<Rightarrow> [] | Some header \<Rightarrow> header) of
             [scheme, token'] \<Rightarrow>
               (case logout_user st token' of
                  (st', False) \<Rightarrow> (st', Inl (HTTPException 400 ''Logout failed''))
                | (st', True) \<Rightarrow> (st', Inr ''Logged out successfully''))
           | _ \<Rightarrow> (st, Inl (HTTPException 400 ''Invalid authorization header''))))"

subsection \<open>Student endpoints\<close>

record StudentCreate =
  new_last_name :: string
  new_first_name :: string
  new_faculty :: string
  new_course :: string
  new_score :: int

definition create_student_endpoint ::
  "state \<Rightarrow> time \<Rightarrow> string option \<Rightarrow> StudentCreate \<Rightarrow> state \<times> (error + json)" where
  "create_student_endpoint st now authorization student =
     (case check_read_only st now authorization of
        Inl e \<Rightarrow> (st, Inl e)
      | Inr user \<Rightarrow>
          (case create_student st (new_last_name student) (new_first_name student)
                  (new_faculty student) (new_course student) (new_score student) of
             Inl e \<Rightarrow> (st, Inl e)
           | Inr (st', result) \<Rightarrow>
               (fst (invalidate_pattern st' now ''cache:students*''), Inr result)))"

definition get_all_students_endpoint ::
  "state \<Rightarrow> time \<Rightarrow> string option \<Rightarrow> state \<times> (error + json)" where
  "get_all_students_endpoint st now authorization =
     (case get_current_user st now authorization of
        Inl e \<Rightarrow> (st, Inl e)
      | Inr user \<Rightarrow>
          let cache_key = make_cache_key (\<lambda>p. []) ''students:all'' None
          in (case cache_get st now cache_key of
                Some cached \<Rightarrow> (st, Inr cached)
              | None \<Rightarrow>
                  let result = JList (get_all_students st)
                  in (fst (cache_set st now cache_key result), Inr result)))"

definition get_student_endpoint ::
  "(json \<Rightarrow> string) \<Rightarrow> state \<Rightarrow> time \<Rightarrow> string option \<Rightarrow> int \<Rightarrow> state \<times> (error + json)" where
  "get_student_endpoint khash st now authorization student_id' =
     (case get_current_user st now authorization of
        Inl e \<Rightarrow> (st, Inl e)
      | Inr user \<Rightarrow>
          let cache_key = make_cache_key khash ''students:by_id'' (Some (JDict [(''id'', JInt student_id')]))
          in (case cache_get st now cache_key of
                Some (JList (first # rest)) \<Rightarrow> (st, Inr first)
              | _ \<Rightarrow>
                  (case get_student_by_id st student_id' of
                     Inl e \<Rightarrow> (st, Inl e)
                   | Inr None \<Rightarrow> (st, Inl (HTTPException 404 ''Student not found''))
                   | Inr (Some student) \<Rightarrow>
                       (fst (cache_set st now cache_key (JList [student])), Inr student))))"

definition update_student_endpoint ::
  "state \<Rightarrow> time \<Rightarrow> string option \<Rightarrow> int \<Rightarrow> StudentUpdate \<Rightarrow> state \<times> (error + json)" where
  "update_student_endpoint st now authorization student_id' student_update =
     (case check_read_only st now authorization of
        Inl e \<Rightarrow> (st, Inl e)
      | Inr user \<Rightarrow>
          (case update_student st student_id' student_update of
             Inl e \<Rightarrow> (st, Inl e)
           | Inr (st', None) \<Rightarrow> (st', Inl (HTTPException 404 ''Student not found''))
           | Inr (st', Some result) \<Rightarrow>
               (fst (invalidate_pattern st' now ''cache:students*''), Inr result)))"

definition delete_student_endpoint ::
  "state \<Rightarrow> time \<Rightarrow> string option \<Rightarrow> int \<Rightarrow> state \<times> (error + string)" where
  "delete_student_endpoint st now authorization student_id' =
     (case check_read_only st now authorization of
        Inl e \<Rightarrow> (st, Inl e)
      | Inr user \<Rightarrow>
          (case delete_student st student_id' of
             Inl e \<Rightarrow> (st, Inl e)
           | Inr (st', False) \<Rightarrow> (st', Inl (HTTPException 404 ''Student not found''))
           | Inr (st', True) \<Rightarrow>
               (fst (invalidate_pattern st' now ''cache:students*''),
                Inr ''Student deleted successfully'')))"

text \<open>
  The two background endpoints only schedule a task: they return the list of tasks added
  to \<^verbatim>\<open>background_tasks\<close>, which run after the response is sent.
\<close>

datatype task = ImportTask string | BulkDeleteTask "int list"

definition import_csv_background ::
  "state \<Rightarrow> time \<Rightarrow> string option \<Rightarrow> string \<Rightarrow> task list \<times> (error + string)" where
  "import_csv_background st now authorization csv_file =
     (case check_read_only st now authorization of
        Inl e \<Rightarrow> ([], Inl e)
      | Inr user \<Rightarrow> ([ImportTask csv_file], Inr ''processing''))"

definition delete_students_bulk ::
  "state \<Rightarrow> time \<Rightarrow> string option \<Rightarrow> int list \<Rightarrow> task list \<times> (error + string)" where
  "delete_students_bulk st now authorization student_ids =
     (case check_read_only st now authorization of
        Inl e \<Rightarrow> ([], Inl e)
      | Inr user \<Rightarrow>
          if student_ids = []
          then ([], Inl (HTTPException 400 ''student_ids list cannot be empty''))
          else ([BulkDeleteTask student_ids], Inr ''processing''))"

definition run_task ::
  "(string \<Rightarrow> csv_row list option) \<Rightarrow> state \<Rightarrow> time \<Rightarrow> task \<Rightarrow> state \<times> task_result" where
  "run_task fs st now t =
     (case t of
        ImportTask csv_file \<Rightarrow> populate_from_csv_background fs st now csv_file
      | BulkDeleteTask student_ids \<Rightarrow> delete_students_by_ids st now student_ids)"

subsection \<open>Query endpoints\<close>

definition get_students_by_faculty_endpoint ::
  "(json \<Rightarrow> string) \<Rightarrow> state \<Rightarrow> time \<Rightarrow> string option \<Rightarrow> string \<Rightarrow> state \<times> (error + json)" where
  "get_students_by_faculty_endpoint khash st now authorization faculty' =
     (case get_current_user st now authorization of
        Inl e \<Rightarrow> (st, Inl e)
      | Inr user \<Rightarrow>
          let cache_key = make_cache_key khash ''students:by_faculty''
                            (Some (JDict [(''faculty'', JStr faculty')]))
          in (case cache_get st now cache_key of
                Some cached \<Rightarrow> (st, Inr cached)
              | None \<Rightarrow>
                  let result = JList (get_students_by_faculty st faculty')
                  in (fst (cache_set st now cache_key result), Inr result)))"

text \<open>
  \<^verbatim>\<open>get_unique_courses\<close>: the value cached is the list of \<^verbatim>\<open>{"course": c}\<close>, the value
  returned on a miss is the list of strings, and on a hit the cached value is returned as
  it is.
\<close>

definition get_unique_courses_endpoint ::
  "state \<Rightarrow> time \<Rightarrow> string option \<Rightarrow> state \<times> (error + json)" where
  "get_unique_courses_endpoint st now authorization =
     (case get_current_user st now authorization of
        Inl e \<Rightarrow> (st, Inl e)
      | Inr user \<Rightarrow>
          let cache_key = make_cache_key (\<lambda>p. []) ''courses:unique'' None
          in (case cache_get st now cache_key of
                Some cached \<Rightarrow> (st, Inr cached)
              | None \<Rightarrow>
                  let result = get_unique_courses st
                  in (fst (cache_set st now cache_key
                             (JList (map (\<lambda>c. JDict [(''course'', JStr c)]) result))),
                      Inr (JList (map JStr result)))))"

definition get_low_score_students ::
  "(json \<Rightarrow> string) \<Rightarrow> state \<Rightarrow> time \<Rightarrow> string option \<Rightarrow> string \<Rightarrow> int \<Rightarrow> state \<times> (error + json)" where
  "get_low_score_students khash st now authorization course' threshold =
     (case get_current_user st now authorization of
        Inl e \<Rightarrow> (st, Inl e)
      | Inr user \<Rightarrow>
          let cache_key = make_cache_key khash ''students:low_scores''
                            (Some (JDict [(''course'', JStr course'), (''threshold'', JInt threshold)]))
          in (case cache_get st now cache_key of
                Some cached \<Rightarrow> (st, Inr cached)
              | None \<Rightarrow>
                  (case get_low_score_students_by_course st course' threshold of
                     Inl e \<Rightarrow> (st, Inl e)
                   | Inr students' \<Rightarrow>
                       let result = JList students'
                       in (fst (cache_set st now cache_key result), Inr result))))"

subsection \<open>Values used in the statements and a small database\<close>

text \<open>The dictionary \<^verbatim>\<open>verify_token\<close> returns for the user \<open>u\<close>.\<close>

definition auth_info :: "user_row \<Rightarrow> AuthUser" where
  "auth_info u = \<lparr>au_user_id = uid u, au_username = username u,
                  au_is_read_only = is_read_only u, au_is_active = is_active u\<rparr>"

text \<open>
  The database after a call: the one the call returns, or the one it was given when it
  raised. \<open>storable\<close> holds of an update request whose score, if it gives one, is a
  64-bit integer.
\<close>

definition state_after :: "state \<Rightarrow> error + state \<times> 'a \<Rightarrow> state" where
  "state_after st r = (case r of Inl e \<Rightarrow> st | Inr (st', x) \<Rightarrow> st')"

definition storable :: "StudentUpdate \<Rightarrow> bool" where
  "storable kwargs = (case upd_score kwargs of None \<Rightarrow> True | Some v \<Rightarrow> in_int64 v)"

text \<open>
  What a successful \<^verbatim>\<open>refresh_token_user\<close> writes: the session row \<open>s\<close> with both tokens
  and the expiry replaced, put back at its place in the table; and the dictionary it
  returns for the owner \<open>u\<close>.
\<close>

definition rotated :: "session_row \<Rightarrow> string \<times> string \<Rightarrow> time \<Rightarrow> session_row" where
  "rotated s toks now = s\<lparr>token := fst toks, refresh_token := snd toks, expires_at := now + hours24\<rparr>"

definition rotate_row :: "state \<Rightarrow> session_row \<Rightarrow> string \<times> string \<Rightarrow> time \<Rightarrow> state" where
  "rotate_row st s toks now =
     st\<lparr>sessions := map (\<lambda>x. if sess_id x = sess_id s then rotated s toks now else x) (sessions st)\<rparr>"

definition token_dict :: "user_row \<Rightarrow> string \<times> string \<Rightarrow> TokenDict" where
  "token_dict u toks = \<lparr>td_access_token = fst toks, td_refresh_token = snd toks,
       td_user_id = uid u, td_username = username u, td_is_read_only = is_read_only u\<rparr>"

text \<open>
  No row other than \<open>s\<close> holds one of the generated tokens, so that the unique columns
  admit the commit.
\<close>

definition tokens_free :: "state \<Rightarrow> session_row \<Rightarrow> string \<times> string \<Rightarrow> bool" where
  "tokens_free st s toks \<longleftrightarrow>
     (\<forall>x \<in> set (sessions st). sess_id x \<noteq> sess_id s \<longrightarrow>
         token x \<noteq> fst toks \<and> refresh_token x \<noteq> snd toks)"

text \<open>
  A database on which the theorems are evaluated: three users (one with write access, one
  read-only, one deactivated), two sessions that expire at instant 1000, and one student.
  \<open>toy_digest\<close> takes the place of SHA-256 there (one byte, the length of the input),
  so that the stored hashes can be computed by hand: \<open>ab:05\<close> is the hash of the
  three-letter password \<open>pw1\<close> with salt \<open>ab\<close>.
\<close>

definition toy_digest :: "string \<Rightarrow> byte list" where
  "toy_digest s = [of_nat (length s)]"

definition alice :: user_row where
  "alice = \<lparr>uid = 1, username = ''alice'', email = ''a@x.com'', password_hash = ''ab:05'',
            is_read_only = False, is_active = True, created_at = 0\<rparr>"

definition bob :: user_row where
  "bob = \<lparr>uid = 2, username = ''bob'', email = ''b@x.com'', password_hash = ''cd:05'',
          is_read_only = True, is_active = True, created_at = 0\<rparr>"

definition carol :: user_row where
  "carol = \<lparr>uid = 3, username = ''carol'', email = ''c@x.com'', password_hash = ''ef:05'',
            is_read_only = False, is_active = False, created_at = 0\<rparr>"

definition alice_session :: session_row where
  "alice_session = \<lparr>sess_id = 1, user_id = 1, token = ''tokA'', refresh_token = ''refA'',
                    sess_created_at = 0, expires_at = 1000, sess_is_active = True\<rparr>"

definition bob_session :: session_row where
  "bob_session = \<lparr>sess_id = 2, user_id = 2, token = ''tokB'', refresh_token = ''refB'',
                  sess_created_at = 0, expires_at = 1000, sess_is_active = True\<rparr>"

definition ivanov :: student_row where
  "ivanov = \<lparr>student_id = 1, last_name = ''Ivanov'', first_name = ''Ivan'',
             faculty = ''Physics'', course = ''Math'', score = 95\<rparr>"

definition example_state :: state where
  "example_state = \<lparr>users = [alice, bob, carol],
                    sessions = [alice_session, bob_session],
                    students = [ivanov],
                    redis = Some []\<rparr>"

text \<open>A student to create, on a course that no stored student follows.\<close>

definition petrov :: StudentCreate where
  "petrov = \<lparr>new_last_name = ''Petrov'', new_first_name = ''Petr'', new_faculty = ''Physics'',
             new_course = ''Chemistry'', new_score = 70\<rparr>"

section \<open>Properties\<close>

subsection \<open>Splitting\<close>

lemma split_acc_no_sep:
  "c \<notin> set s \<Longrightarrow> split_acc c cur s = [rev cur @ s]"
  by (induction s arbitrary: cur) auto

lemma split_acc_append:
  "c \<notin> set a \<Longrightarrow> split_acc c cur (a @ c # b) = (rev cur @ a) # split_acc c [] b"
  by (induction a arbitrary: cur) auto

lemma length_split_acc:
  "length (split_acc c cur s) = Suc (count_list s c)"
  by (induction s arbitrary: cur) auto

lemma length_split_on: "length (split_on c s) = Suc (count_list s c)"
  by (simp add: split_on_def length_split_acc)

lemma hexdigit_not_colon: "hexdigit n \<noteq> CHR '':''"
proof -
  have "n mod 16 < length ''0123456789abcdef''" by simp
  then have "hexdigit n \<in> set ''0123456789abcdef''"
    unfolding hexdigit_def by (rule nth_mem)
  then show ?thesis by auto
qed

lemma hex_no_colon: "CHR '':'' \<notin> set (hex bs)"
  by (induction bs)
     (auto simp: hex_def hex_byte_def hexdigit_not_colon hexdigit_not_colon [THEN not_sym])

lemma split_on_salt_hash:
  "CHR '':'' \<notin> set a \<Longrightarrow> CHR '':'' \<notin> set b \<Longrightarrow> split_on CHR '':'' (a @ '':'' @ b) = [a, b]"
  by (simp add: split_on_def split_acc_append split_acc_no_sep)

subsection \<open>Password round trip\<close>

text \<open>
  Claim C8. For every password (and whatever random bytes the salt was drawn from),
  \<^verbatim>\<open>verify_password(password, hash_password(password))\<close> returns \<^verbatim>\<open>True\<close>: the stored
  string is \<open>salt:hash\<close> with a hexadecimal salt and a hexadecimal digest, so splitting it
  at \<open>:\<close> gives back exactly the salt and the digest of \<open>password + salt\<close>.
\<close>

theorem verify_password_hash_password:
  "verify_password H password (hash_password H rnd password) = True"
proof -
  let ?salt = "token_hex rnd"
  let ?h = "hexdigest H (password @ ?salt)"
  have "split_on CHR '':'' (?salt @ '':'' @ ?h) = [?salt, ?h]"
    by (rule split_on_salt_hash) (simp_all add: token_hex_def hexdigest_def hex_no_colon)
  then show ?thesis
    by (simp add: verify_password_def verify_password_try_def hash_password_def Let_def)
qed

subsection \<open>Malformed stored hashes\<close>

text \<open>
  Claim C9. For every password and every stored hash that is not of the form \<open>salt:hash\<close>
  (the number of \<open>:\<close> in it is not one: none at all, or more than one),
  \<^verbatim>\<open>verify_password\<close> returns \<^verbatim>\<open>False\<close>; the \<^verbatim>\<open>ValueError\<close> of the tuple assignment is
  caught inside the function and never reaches the caller.
\<close>

theorem verify_password_malformed:
  assumes "count_list stored CHR '':'' \<noteq> 1"
  shows "verify_password_try H password stored = Inl ValueError
         \<and> verify_password H password stored = False"
proof -
  have "length (split_on CHR '':'' stored) \<noteq> 2"
    using assms by (simp add: length_split_on)
  then have "verify_password_try H password stored = Inl ValueError"
    by (auto simp: verify_password_try_def split: list.splits)
  then show ?thesis
    by (simp add: verify_password_def)
qed

theorem verify_password_malformed_witness:
  "count_list ''a1:b2:c3'' CHR '':'' \<noteq> 1
   \<and> verify_password_try (\<lambda>s. []) ''secret'' ''a1:b2:c3'' = Inl ValueError
   \<and> verify_password (\<lambda>s. []) ''secret'' ''a1:b2:c3'' = False"
  using verify_password_malformed [of "''a1:b2:c3''" "\<lambda>s. []" "''secret''"] by simp

subsection \<open>Lookups in a table with a unique column\<close>

lemma find_unique:
  "distinct (map f xs) \<Longrightarrow> x \<in> set xs \<Longrightarrow>
   find (\<lambda>y. f y = f x \<and> P y) xs = (if P x then Some x else None)"
  by (induction xs) (auto simp: find_None_iff image_iff)

lemma find_key:
  "distinct (map f xs) \<Longrightarrow> x \<in> set xs \<Longrightarrow> find (\<lambda>y. f y = f x) xs = Some x"
  using find_unique [of f xs x "\<lambda>_. True"] by simp

lemma find_Some_mem: "find P xs = Some x \<Longrightarrow> x \<in> set xs \<and> P x"
  by (induction xs) (auto split: if_splits)

lemma distinct_key_eq:
  "distinct (map f xs) \<Longrightarrow> x \<in> set xs \<Longrightarrow> y \<in> set xs \<Longrightarrow> f x = f y \<Longrightarrow> x = y"
  by (auto simp: distinct_map dest: inj_onD)

lemma find_map_update:
  "f x' = k \<Longrightarrow>
   find (\<lambda>y. f y = j) (map (\<lambda>y. if f y = k then x' else y) xs)
     = (if j = k then (if k \<in> f ` set xs then Some x' else None) else find (\<lambda>y. f y = j) xs)"
  by (induction xs) auto

lemmas example_defs =
  example_state_def alice_def bob_def carol_def alice_session_def bob_session_def ivanov_def

lemma schema_ok_example: "schema_ok example_state"
  by (simp add: schema_ok_def example_defs)

subsection \<open>Registration conflicts\<close>

text \<open>
  Claim C5. In every state in which some user already has the given username or the given
  email, \<^verbatim>\<open>register_user\<close> returns \<^verbatim>\<open>None\<close>, the endpoint answers 400 (the spec's
  Conflict) and the state, hence the user table, is unchanged. The check is the single
  lookup with the disjunction of the two comparisons.
\<close>

theorem register_conflict:
  assumes "\<exists>u \<in> set (users st). username u = username' \<or> email u = email'"
  shows "register_user H st now rnd username' email' password ro = (st, None)
         \<and> register H st now rnd
              \<lparr>reg_username = username', reg_email = email', reg_password = password,
               reg_is_read_only = ro\<rparr>
            = (st, Inl (HTTPException 400 ''Username or email already exists''))"
proof -
  have "find (\<lambda>u. username u = username' \<or> email u = email') (users st) \<noteq> None"
    using assms by (auto simp: find_None_iff)
  then have "register_user H st now rnd username' email' password ro = (st, None)"
    by (auto simp: register_user_def)
  then show ?thesis by (simp add: register_def)
qed

theorem register_conflict_witness:
  "(\<exists>u \<in> set (users example_state). username u = ''alice'' \<or> email u = ''new@x.com'')
   \<and> register_user toy_digest example_state 5 [1, 2] ''alice'' ''new@x.com'' ''pw2'' False
       = (example_state, None)
   \<and> register toy_digest example_state 5 [1, 2]
        \<lparr>reg_username = ''alice'', reg_email = ''new@x.com'', reg_password = ''pw2'',
         reg_is_read_only = False\<rparr>
      = (example_state, Inl (HTTPException 400 ''Username or email already exists''))"
proof -
  have h: "\<exists>u \<in> set (users example_state). username u = ''alice'' \<or> email u = ''new@x.com''"
    by (simp add: example_defs)
  show ?thesis
    using h register_conflict [OF h, of toy_digest 5 "[1, 2]" "''pw2''" False] by simp
qed

subsection \<open>Partial update\<close>

lemma apply_kwargs_fields:
  "student_id (apply_kwargs s k) = student_id s"
  "last_name (apply_kwargs s k) = (case upd_last_name k of None \<Rightarrow> last_name s | Some v \<Rightarrow> v)"
  "first_name (apply_kwargs s k) = (case upd_first_name k of None \<Rightarrow> first_name s | Some v \<Rightarrow> v)"
  "faculty (apply_kwargs s k) = (case upd_faculty k of None \<Rightarrow> faculty s | Some v \<Rightarrow> v)"
  "course (apply_kwargs s k) = (case upd_course k of None \<Rightarrow> course s | Some v \<Rightarrow> v)"
  "score (apply_kwargs s k) = (case upd_score k of None \<Rightarrow> score s | Some v \<Rightarrow> v)"
  by (simp_all add: apply_kwargs_def Let_def split: option.splits)

text \<open>
  Claim C7. For every existing student \<open>s\<close> and every update request: in the database
  after the call the row keeps its id and every field that the request leaves out or gives
  as \<^verbatim>\<open>None\<close> keeps its prior value, every other student is as before, and the users,
  the sessions and the cache are untouched. When the request is storable the call returns
  the updated row, in which each field the request gives has the request's value; when the
  score it gives is not a 64-bit integer the commit raises \<^verbatim>\<open>OverflowError\<close> and nothing
  is written at all. An update that gives only \<open>score\<close> therefore changes nothing but
  \<open>score\<close>.
\<close>

theorem update_student_partial:
  assumes "find (\<lambda>s. student_id s = sid) (students st) = Some s" and "in_int64 sid"
  shows "(\<exists>s'. find (\<lambda>x. student_id x = sid)
                 (students (state_after st (update_student st sid kwargs))) = Some s'
            \<and> student_id s' = student_id s
            \<and> (upd_last_name kwargs = None \<longrightarrow> last_name s' = last_name s)
            \<and> (upd_first_name kwargs = None \<longrightarrow> first_name s' = first_name s)
            \<and> (upd_faculty kwargs = None \<longrightarrow> faculty s' = faculty s)
            \<and> (upd_course kwargs = None \<longrightarrow> course s' = course s)
            \<and> (upd_score kwargs = None \<longrightarrow> score s' = score s))
       \<and> (\<forall>j. j \<noteq> sid \<longrightarrow>
              find (\<lambda>x. student_id x = j) (students (state_after st (update_student st sid kwargs)))
                = find (\<lambda>x. student_id x = j) (students st))
       \<and> length (students (state_after st (update_student st sid kwargs))) = length (students st)
       \<and> users (state_after st (update_student st sid kwargs)) = users st
       \<and> sessions (state_after st (update_student st sid kwargs)) = sessions st
       \<and> redis (state_after st (update_student st sid kwargs)) = redis st
       \<and> (storable kwargs \<longrightarrow>
            (\<exists>st' s'. update_student st sid kwargs = Inr (st', Some (student_dict s'))
               \<and> find (\<lambda>x. student_id x = sid) (students st') = Some s'
               \<and> last_name s' = (case upd_last_name kwargs of None \<Rightarrow> last_name s | Some v \<Rightarrow> v)
               \<and> first_name s' = (case upd_first_name kwargs of None \<Rightarrow> first_name s | Some v \<Rightarrow> v)
               \<and> faculty s' = (case upd_faculty kwargs of None \<Rightarrow> faculty s | Some v \<Rightarrow> v)
               \<and> course s' = (case upd_course kwargs of None \<Rightarrow> course s | Some v \<Rightarrow> v)
               \<and> score s' = (case upd_score kwargs of None \<Rightarrow> score s | Some v \<Rightarrow> v)))
       \<and> (\<not> storable kwargs \<longrightarrow>
            update_student st sid kwargs = Inl OverflowError
            \<and> state_after st (update_student st sid kwargs) = st)"
proof (cases "storable kwargs")
  case False
  then have r: "update_student st sid kwargs = Inl OverflowError"
    using assms by (auto simp: update_student_def storable_def Let_def split: option.splits)
  then have after: "state_after st (update_student st sid kwargs) = st"
    by (simp add: state_after_def)
  show ?thesis
    unfolding after using assms(1) r False by simp
next
  case True
  let ?s' = "apply_kwargs s kwargs"
  let ?st' = "st\<lparr>students := map (\<lambda>x. if student_id x = student_id s then ?s' else x) (students st)\<rparr>"
  have sid: "student_id s = sid" using find_Some_mem [OF assms(1)] by simp
  have r: "update_student st sid kwargs = Inr (?st', Some (student_dict ?s'))"
    using assms True
    by (auto simp: update_student_def storable_def Let_def split: option.splits)
  then have after: "state_after st (update_student st sid kwargs) = ?st'"
    by (simp add: state_after_def)
  have fnd: "find (\<lambda>x. student_id x = j) (students ?st')
               = (if j = sid then Some ?s' else find (\<lambda>x. student_id x = j) (students st))" for j
    using find_Some_mem [OF assms(1)] find_map_update [of student_id ?s' sid j "students st"]
    by (auto simp: apply_kwargs_fields)
  have frame: "\<exists>s'. find (\<lambda>x. student_id x = sid) (students ?st') = Some s'
            \<and> student_id s' = student_id s
            \<and> (upd_last_name kwargs = None \<longrightarrow> last_name s' = last_name s)
            \<and> (upd_first_name kwargs = None \<longrightarrow> first_name s' = first_name s)
            \<and> (upd_faculty kwargs = None \<longrightarrow> faculty s' = faculty s)
            \<and> (upd_course kwargs = None \<longrightarrow> course s' = course s)
            \<and> (upd_score kwargs = None \<longrightarrow> score s' = score s)"
    apply (rule exI [of _ ?s'])
    using fnd by (simp add: apply_kwargs_fields)
  have others: "\<forall>j. j \<noteq> sid \<longrightarrow>
              find (\<lambda>x. student_id x = j) (students ?st') = find (\<lambda>x. student_id x = j) (students st)"
    using fnd by simp
  have effect: "\<exists>st' s'. update_student st sid kwargs = Inr (st', Some (student_dict s'))
               \<and> find (\<lambda>x. student_id x = sid) (students st') = Some s'
               \<and> last_name s' = (case upd_last_name kwargs of None \<Rightarrow> last_name s | Some v \<Rightarrow> v)
               \<and> first_name s' = (case upd_first_name kwargs of None \<Rightarrow> first_name s | Some v \<Rightarrow> v)
               \<and> faculty s' = (case upd_faculty kwargs of None \<Rightarrow> faculty s | Some v \<Rightarrow> v)
               \<and> course s' = (case upd_course kwargs of None \<Rightarrow> course s | Some v \<Rightarrow> v)
               \<and> score s' = (case upd_score kwargs of None \<Rightarrow> score s | Some v \<Rightarrow> v)"
    apply (rule exI [of _ ?st'], rule exI [of _ ?s'])
    using r fnd by (simp add: apply_kwargs_fields)
  show ?thesis
    unfolding after using frame others effect True by simp
qed

theorem update_student_partial_witness:
  "find (\<lambda>s. student_id s = 1) (students example_state) = Some ivanov \<and> in_int64 1
   \<and> storable \<lparr>upd_last_name = None, upd_first_name = None, upd_faculty = None,
                upd_course = None, upd_score = Some 50\<rparr>
   \<and> (\<exists>st' s'. update_student example_state 1
                  \<lparr>upd_last_name = None, upd_first_name = None, upd_faculty = None,
                   upd_course = None, upd_score = Some 50\<rparr> = Inr (st', Some (student_dict s'))
         \<and> find (\<lambda>x. student_id x = 1) (students st') = Some s'
         \<and> last_name s' = ''Ivanov'' \<and> first_name s' = ''Ivan''
         \<and> faculty s' = ''Physics'' \<and> course s' = ''Math'' \<and> score s' = 50)
   \<and> \<not> storable \<lparr>upd_last_name = None, upd_first_name = None, upd_faculty = None,
                   upd_course = None, upd_score = Some (2 ^ 63)\<rparr>
   \<and> update_student example_state 1
        \<lparr>upd_last_name = None, upd_first_name = None, upd_faculty = None,
         upd_course = None, upd_score = Some (2 ^ 63)\<rparr> = Inl OverflowError"
proof -
  let ?small = "\<lparr>upd_last_name = None, upd_first_name = None, upd_faculty = None,
                  upd_course = None, upd_score = Some (50::int)\<rparr>"
  let ?big = "\<lparr>upd_last_name = None, upd_first_name = None, upd_faculty = None,
                upd_course = None, upd_score = Some ((2::int) ^ 63)\<rparr>"
  have h: "find (\<lambda>s. student_id s = 1) (students example_state) = Some ivanov"
    by (simp add: example_defs)
  have i: "in_int64 1" by (simp add: in_int64_def)
  have ok: "storable ?small" by (simp add: storable_def in_int64_def)
  have bad: "\<not> storable ?big" by (simp add: storable_def in_int64_def)
  from update_student_partial [OF h i, of ?small] ok
  obtain st' s' where
    "update_student example_state 1 ?small = Inr (st', Some (student_dict s'))"
    "find (\<lambda>x. student_id x = 1) (students st') = Some s'"
    "last_name s' = last_name ivanov" "first_name s' = first_name ivanov"
    "faculty s' = faculty ivanov" "course s' = course ivanov" "score s' = 50"
    by auto
  then have good: "\<exists>st' s'. update_student example_state 1 ?small = Inr (st', Some (student_dict s'))
         \<and> find (\<lambda>x. student_id x = 1) (students st') = Some s'
         \<and> last_name s' = ''Ivanov'' \<and> first_name s' = ''Ivan''
         \<and> faculty s' = ''Physics'' \<and> course s' = ''Math'' \<and> score s' = 50"
    by (auto simp: ivanov_def)
  have over: "update_student example_state 1 ?big = Inl OverflowError"
    using update_student_partial [OF h i, of ?big] bad by blast
  show ?thesis using h i ok bad good over by blast
qed

subsection \<open>Token verification\<close>

lemma verify_token_session:
  assumes "schema_ok st" "s \<in> set (sessions st)"
  shows "verify_token st now (token s) =
           (if sess_is_active s \<and> \<not> expires_at s < now
            then (case find (\<lambda>u. uid u = user_id s) (users st) of
                    None \<Rightarrow> None
                  | Some u \<Rightarrow> if is_active u then Some (auth_info u) else None)
            else None)"
proof -
  have "distinct (map token (sessions st))" using assms(1) by (simp add: schema_ok_def)
  then have "find (\<lambda>x. token x = token s \<and> sess_is_active x = True) (sessions st)
               = (if sess_is_active s then Some s else None)"
    using find_unique [of token "sessions st" s "\<lambda>x. sess_is_active x = True"] assms(2) by simp
  then show ?thesis
    by (simp add: verify_token_def auth_info_def split: option.splits)
qed

text \<open>
  Claim C2, as the spec states it, fails at the instant \<open>now = expires_at\<close>: the session of
  the example expires at 1000, and at 1000 its token still authenticates, although
  \<open>now < expires_at\<close> does not hold.
\<close>

theorem verify_token_at_expiry_counterexample:
  "\<not> (verify_token example_state 1000 (token alice_session) \<noteq> None
        \<longleftrightarrow> sess_is_active alice_session \<and> (1000::int) < expires_at alice_session
            \<and> is_active alice)"
  by (simp add: verify_token_def example_defs)

text \<open>
  Claim C2, amended. In a database that satisfies the schema, for every session row \<open>s\<close>
  and its access token, \<^verbatim>\<open>verify_token\<close> returns the context of the owning user if and
  only if the session is active, \<open>now \<le> expires_at\<close> (the source rejects a session only
  when \<open>expires_at < now\<close>) and the owning user exists and is active; in every other case,
  a deactivated or expired session included, it returns \<^verbatim>\<open>None\<close> although the row exists.
\<close>

theorem verify_token_iff:
  assumes "schema_ok st" "s \<in> set (sessions st)"
  shows "((\<exists>u \<in> set (users st). uid u = user_id s \<and> verify_token st now (token s) = Some (auth_info u))
           \<longleftrightarrow> (sess_is_active s \<and> now \<le> expires_at s
                \<and> (\<exists>u \<in> set (users st). uid u = user_id s \<and> is_active u)))
       \<and> (verify_token st now (token s) = None
           \<longleftrightarrow> \<not> (sess_is_active s \<and> now \<le> expires_at s
                  \<and> (\<exists>u \<in> set (users st). uid u = user_id s \<and> is_active u)))"
proof -
  have du: "distinct (map uid (users st))" using assms(1) by (simp add: schema_ok_def)
  note vt = verify_token_session [OF assms, of now]
  show ?thesis
  proof (cases "\<exists>u \<in> set (users st). uid u = user_id s")
    case False
    then have "find (\<lambda>u. uid u = user_id s) (users st) = None"
      by (simp add: find_None_iff)
    with False show ?thesis unfolding vt by simp
  next
    case True
    then obtain u where u: "u \<in> set (users st)" "uid u = user_id s" by blast
    then have f: "find (\<lambda>u. uid u = user_id s) (users st) = Some u"
      using find_key [OF du, of u] by simp
    have only: "u' = u" if "u' \<in> set (users st)" "uid u' = user_id s" for u'
      using distinct_key_eq [OF du that(1) u(1)] that(2) u(2) by simp
    have ex_owner: "(\<exists>u' \<in> set (users st). uid u' = user_id s \<and> P u') = P u" for P
      using u only by blast
    show ?thesis unfolding vt f ex_owner by (auto simp: not_less)
  qed
qed

theorem verify_token_iff_witness:
  "schema_ok example_state \<and> alice_session \<in> set (sessions example_state)
   \<and> (\<exists>u \<in> set (users example_state). uid u = user_id alice_session
          \<and> verify_token example_state 500 (token alice_session) = Some (auth_info u))
   \<and> verify_token example_state 1001 (token alice_session) = None"
proof -
  have m: "alice_session \<in> set (sessions example_state)"
    by (simp add: example_defs)
  have r: "sess_is_active alice_session \<and> 500 \<le> expires_at alice_session
           \<and> (\<exists>u \<in> set (users example_state). uid u = user_id alice_session \<and> is_active u)"
    by (simp add: example_defs)
  have e: "\<not> 1001 \<le> expires_at alice_session"
    by (simp add: example_defs)
  show ?thesis
    using verify_token_iff [OF schema_ok_example m, of 500]
          verify_token_iff [OF schema_ok_example m, of 1001] r e schema_ok_example m
    by blast
qed

subsection \<open>Token rotation\<close>

lemma distinct_map_update:
  assumes "distinct (map k xs)" "distinct (map f xs)" "x \<in> set xs" "k x' = k x"
    and "\<forall>y \<in> set xs. k y \<noteq> k x \<longrightarrow> f y \<noteq> f x'"
  shows "distinct (map f (map (\<lambda>y. if k y = k x then x' else y) xs))"
  using assms
proof (induction xs)
  case Nil
  then show ?case by simp
next
  case (Cons a xs)
  show ?case
  proof (cases "k a = k x")
    case True
    then have ax: "a = x" using Cons.prems(1,3) by (auto simp: image_iff)
    then have nk: "\<forall>y \<in> set xs. k y \<noteq> k x" using Cons.prems(1) by (auto simp: image_iff)
    then have "map (\<lambda>y. if k y = k x then x' else y) xs = xs"
      by (simp add: map_idI)
    then show ?thesis using True Cons.prems nk by (auto simp: image_iff)
  next
    case False
    then have "x \<in> set xs" using Cons.prems(3) by auto
    then have IH: "distinct (map f (map (\<lambda>y. if k y = k x then x' else y) xs))"
      using Cons.IH Cons.prems by simp
    have "f a \<noteq> f x'" using False Cons.prems(5) by simp
    moreover have "f a \<notin> f ` set xs" using Cons.prems(2) by simp
    moreover have "set (map (\<lambda>y. if k y = k x then x' else y) xs) \<subseteq> insert x' (set xs)"
      by auto
    then have "f ` set (map (\<lambda>y. if k y = k x then x' else y) xs) \<subseteq> insert (f x') (f ` set xs)"
      by blast
    ultimately have "f a \<notin> f ` set (map (\<lambda>y. if k y = k x then x' else y) xs)"
      by blast
    then have nin: "f a \<notin> set (map f (map (\<lambda>y. if k y = k x then x' else y) xs))"
      by (simp only: set_map simp_thms)
    have eq: "map f (map (\<lambda>y. if k y = k x then x' else y) (a # xs))
                = f a # map f (map (\<lambda>y. if k y = k x then x' else y) xs)"
      using False by simp
    show ?thesis unfolding eq
      by (rule iffD2 [OF distinct.simps(2)]) (rule conjI [OF nin IH])
  qed
qed

lemma refresh_success:
  assumes ok: "schema_ok st" and s: "s \<in> set (sessions st)" "sess_is_active s"
    and u: "u \<in> set (users st)" "uid u = user_id s" "is_active u"
    and free: "tokens_free st s toks"
  shows "refresh_token_user st now toks (refresh_token s)
           = Inr (rotate_row st s toks now, Some (token_dict u toks))"
proof -
  have "distinct (map refresh_token (sessions st))" using ok by (simp add: schema_ok_def)
  then have fs: "find (\<lambda>x. refresh_token x = refresh_token s \<and> sess_is_active x) (sessions st)
               = Some s"
    using find_unique [of refresh_token "sessions st" s sess_is_active] s by simp
  have "distinct (map uid (users st))" using ok by (simp add: schema_ok_def)
  then have fu: "find (\<lambda>x. uid x = user_id s) (users st) = Some u"
    using find_key [of uid "users st" u] u by simp
  have nc: "\<not> (\<exists>x \<in> set (sessions st). sess_id x \<noteq> sess_id s
                 \<and> (token x = fst toks \<or> refresh_token x = snd toks))"
    using free by (auto simp: tokens_free_def)
  show ?thesis
    using u(3) nc
    by (simp add: refresh_token_user_def fs fu Let_def rotate_row_def rotated_def token_dict_def)
qed

lemma refresh_inversion:
  assumes ok: "schema_ok st"
    and r: "refresh_token_user st now toks rt = Inr (st', Some res)"
  shows "\<exists>s u. s \<in> set (sessions st) \<and> refresh_token s = rt \<and> sess_is_active s
           \<and> u \<in> set (users st) \<and> uid u = user_id s \<and> is_active u
           \<and> tokens_free st s toks
           \<and> st' = rotate_row st s toks now \<and> res = token_dict u toks"
proof -
  obtain s where fs: "find (\<lambda>x. refresh_token x = rt \<and> sess_is_active x) (sessions st) = Some s"
    using r by (cases "find (\<lambda>x. refresh_token x = rt \<and> sess_is_active x) (sessions st)")
               (auto simp: refresh_token_user_def)
  obtain u where fu: "find (\<lambda>x. uid x = user_id s) (users st) = Some u"
    using r fs by (cases "find (\<lambda>x. uid x = user_id s) (users st)")
                  (auto simp: refresh_token_user_def)
  have act: "is_active u"
    using r fs fu by (auto simp: refresh_token_user_def split: if_splits)
  have nc: "\<not> (\<exists>x \<in> set (sessions st). sess_id x \<noteq> sess_id s
                 \<and> (token x = fst toks \<or> refresh_token x = snd toks))"
    using r fs fu act by (auto simp: refresh_token_user_def Let_def split: if_splits)
  have res: "st' = rotate_row st s toks now \<and> res = token_dict u toks"
    using r nc act
    by (auto simp: refresh_token_user_def fs fu Let_def rotate_row_def rotated_def token_dict_def)
  show ?thesis
    using find_Some_mem [OF fs] find_Some_mem [OF fu] act nc res
    by (auto simp: tokens_free_def)
qed

lemma schema_ok_rotate_row:
  assumes ok: "schema_ok st" and s: "s \<in> set (sessions st)" and free: "tokens_free st s toks"
  shows "schema_ok (rotate_row st s toks now)"
proof -
  let ?s' = "rotated s toks now"
  let ?m = "map (\<lambda>x. if sess_id x = sess_id s then ?s' else x) (sessions st)"
  have d: "distinct (map sess_id (sessions st))" "distinct (map token (sessions st))"
          "distinct (map refresh_token (sessions st))"
    using ok by (simp_all add: schema_ok_def)
  have id: "sess_id ?s' = sess_id s" by (simp add: rotated_def)
  have 1: "distinct (map sess_id ?m)"
    by (rule distinct_map_update [OF d(1) d(1) s id]) (simp add: id)
  have 2: "distinct (map token ?m)"
    by (rule distinct_map_update [OF d(1) d(2) s id])
       (use free in \<open>auto simp: tokens_free_def rotated_def\<close>)
  have 3: "distinct (map refresh_token ?m)"
    by (rule distinct_map_update [OF d(1) d(3) s id])
       (use free in \<open>auto simp: tokens_free_def rotated_def\<close>)
  show ?thesis using ok 1 2 3 by (simp add: schema_ok_def rotate_row_def)
qed

lemma rotated_mem:
  "s \<in> set (sessions st) \<Longrightarrow> rotated s toks now \<in> set (sessions (rotate_row st s toks now))"
  by (force simp: rotate_row_def)

lemma sessions_rotate_row:
  "set (sessions (rotate_row st s toks now))
     \<subseteq> insert (rotated s toks now) {x \<in> set (sessions st). sess_id x \<noteq> sess_id s}"
  by (auto simp: rotate_row_def)

text \<open>
  Claim C10. \<^verbatim>\<open>refresh_token_user\<close> never reads \<open>expires_at\<close>: for every active session
  \<open>s\<close> whose owner \<open>u\<close> is active, whatever its expiry, the call with the refresh token of
  \<open>s\<close> succeeds (the generated tokens being free, so that the commit is accepted), writes
  the new tokens and the expiry \<open>now + 24h\<close> into the row, and the new access token
  authenticates the owner at once. The rotated row is again an active session, so the
  same holds for it. When \<open>s\<close> had already expired, its own access token did not
  authenticate.
\<close>

theorem refresh_ignores_expiry:
  assumes ok: "schema_ok st" and s: "s \<in> set (sessions st)" "sess_is_active s"
    and u: "u \<in> set (users st)" "uid u = user_id s" "is_active u"
    and free: "tokens_free st s toks"
  shows "refresh_token_user st now toks (refresh_token s)
           = Inr (rotate_row st s toks now, Some (token_dict u toks))
         \<and> schema_ok (rotate_row st s toks now)
         \<and> rotated s toks now \<in> set (sessions (rotate_row st s toks now))
         \<and> sess_is_active (rotated s toks now)
         \<and> expires_at (rotated s toks now) = now + hours24
         \<and> verify_token (rotate_row st s toks now) now (fst toks) = Some (auth_info u)
         \<and> (expires_at s < now \<longrightarrow> verify_token st now (token s) = None)"
proof -
  let ?st' = "rotate_row st s toks now"
  let ?s' = "rotated s toks now"
  have ok': "schema_ok ?st'" by (rule schema_ok_rotate_row [OF ok s(1) free])
  have m': "?s' \<in> set (sessions ?st')" by (rule rotated_mem [OF s(1)])
  have "distinct (map uid (users st))" using ok by (simp add: schema_ok_def)
  then have fu: "find (\<lambda>x. uid x = user_id s) (users st) = Some u"
    using find_key [of uid "users st" u] u by simp
  have "verify_token ?st' now (token ?s') = Some (auth_info u)"
    unfolding verify_token_session [OF ok' m']
    using s(2) u(3) fu by (simp add: rotated_def rotate_row_def hours24_def)
  then have v: "verify_token ?st' now (fst toks) = Some (auth_info u)"
    by (simp add: rotated_def)
  have old: "expires_at s < now \<longrightarrow> verify_token st now (token s) = None"
    unfolding verify_token_session [OF ok s(1)] by simp
  show ?thesis
    using refresh_success [OF ok s u free, of now] ok' m' v old s(2)
    by (simp add: rotated_def)
qed

theorem refresh_ignores_expiry_witness:
  "schema_ok example_state \<and> alice_session \<in> set (sessions example_state)
   \<and> tokens_free example_state alice_session (''tokN'', ''refN'')
   \<and> expires_at alice_session < 5000
   \<and> verify_token example_state 5000 ''tokA'' = None
   \<and> refresh_token_user example_state 5000 (''tokN'', ''refN'') ''refA''
       = Inr (rotate_row example_state alice_session (''tokN'', ''refN'') 5000,
              Some (token_dict alice (''tokN'', ''refN'')))
   \<and> expires_at (rotated alice_session (''tokN'', ''refN'') 5000) = 5000 + hours24
   \<and> verify_token (rotate_row example_state alice_session (''tokN'', ''refN'') 5000) 5000 ''tokN''
       = Some (auth_info alice)"
proof -
  have m: "alice_session \<in> set (sessions example_state)" "sess_is_active alice_session"
    by (simp_all add: example_defs)
  have u: "alice \<in> set (users example_state)" "uid alice = user_id alice_session" "is_active alice"
    by (simp_all add: example_defs)
  have free: "tokens_free example_state alice_session (''tokN'', ''refN'')"
    by (simp add: tokens_free_def example_defs)
  have e: "expires_at alice_session < 5000" "token alice_session = ''tokA''"
          "refresh_token alice_session = ''refA''"
    by (simp_all add: example_defs)
  show ?thesis
    using refresh_ignores_expiry [OF schema_ok_example m u free, of 5000]
          schema_ok_example m free e
    by simp
qed

text \<open>
  Claim C3. Whenever \<^verbatim>\<open>refresh_token_user\<close> succeeds on a refresh token (with generated
  tokens that are new, i.e. stored in no row), the rotation is in place: the session table
  is the old one with the one row holding that refresh token rewritten (both tokens and
  the expiry replaced, same id, same position), nothing else changes; afterwards the
  previous access token fails \<^verbatim>\<open>verify_token\<close> at every instant and the previous refresh
  token fails \<^verbatim>\<open>refresh_token_user\<close> whatever is drawn.
\<close>

theorem refresh_rotates_in_place:
  assumes ok: "schema_ok st"
    and r: "refresh_token_user st now toks rt = Inr (st', Some res)"
    and new: "fst toks \<notin> token ` set (sessions st)" "snd toks \<notin> refresh_token ` set (sessions st)"
  shows "\<exists>s \<in> set (sessions st). refresh_token s = rt
           \<and> sessions st' =
                 map (\<lambda>x. if sess_id x = sess_id s
                          then s\<lparr>token := fst toks, refresh_token := snd toks,
                                 expires_at := now + hours24\<rparr>
                          else x) (sessions st)
           \<and> users st' = users st \<and> students st' = students st \<and> redis st' = redis st
           \<and> td_access_token res = fst toks \<and> td_refresh_token res = snd toks
           \<and> (\<forall>now'. verify_token st' now' (token s) = None)
           \<and> (\<forall>now' toks'. refresh_token_user st' now' toks' rt = Inr (st', None))"
proof -
  from refresh_inversion [OF ok r] obtain s u where
    s: "s \<in> set (sessions st)" "refresh_token s = rt" and
    st': "st' = rotate_row st s toks now" and res: "res = token_dict u toks"
    by blast
  have d: "distinct (map sess_id (sessions st))" "distinct (map token (sessions st))"
          "distinct (map refresh_token (sessions st))"
    using ok by (simp_all add: schema_ok_def)
  have ne: "fst toks \<noteq> token s" "snd toks \<noteq> rt"
    using new s by auto
  have others: "token x \<noteq> token s \<and> refresh_token x \<noteq> rt"
    if "x \<in> set (sessions st)" "sess_id x \<noteq> sess_id s" for x
    using distinct_key_eq [OF d(2) that(1) s(1)] distinct_key_eq [OF d(3) that(1) s(1)] that(2) s(2)
    by auto
  have rows: "x = rotated s toks now \<or> (x \<in> set (sessions st) \<and> sess_id x \<noteq> sess_id s)"
    if "x \<in> set (sessions st')" for x
    using sessions_rotate_row [of st s toks now] that unfolding st' by blast
  have no_tok: "\<forall>x \<in> set (sessions st'). token x \<noteq> token s"
  proof
    fix x assume "x \<in> set (sessions st')"
    from rows [OF this] show "token x \<noteq> token s"
      using others ne(1) by (auto simp: rotated_def)
  qed
  have no_ref: "\<forall>x \<in> set (sessions st'). refresh_token x \<noteq> rt"
  proof
    fix x assume "x \<in> set (sessions st')"
    from rows [OF this] show "refresh_token x \<noteq> rt"
      using others ne(2) by (auto simp: rotated_def)
  qed
  have v: "verify_token st' now' (token s) = None" for now'
  proof -
    have "find (\<lambda>x. token x = token s \<and> sess_is_active x) (sessions st') = None"
      using no_tok by (auto simp: find_None_iff)
    then show ?thesis by (simp add: verify_token_def)
  qed
  have f: "refresh_token_user st' now' toks' rt = Inr (st', None)" for now' toks'
  proof -
    have "find (\<lambda>x. refresh_token x = rt \<and> sess_is_active x) (sessions st') = None"
      using no_ref by (auto simp: find_None_iff)
    then show ?thesis by (simp add: refresh_token_user_def)
  qed
  have shape: "sessions st' =
                 map (\<lambda>x. if sess_id x = sess_id s
                          then s\<lparr>token := fst toks, refresh_token := snd toks,
                                 expires_at := now + hours24\<rparr>
                          else x) (sessions st)
           \<and> users st' = users st \<and> students st' = students st \<and> redis st' = redis st
           \<and> td_access_token res = fst toks \<and> td_refresh_token res = snd toks"
    unfolding st' res by (simp add: rotate_row_def rotated_def token_dict_def)
  show ?thesis
    by (rule bexI [OF _ s(1)]) (use s(2) shape v f in blast)
qed

theorem refresh_rotates_in_place_witness:
  "schema_ok example_state
   \<and> refresh_token_user example_state 5000 (''tokN'', ''refN'') ''refA''
       = Inr (rotate_row example_state alice_session (''tokN'', ''refN'') 5000,
              Some (token_dict alice (''tokN'', ''refN'')))
   \<and> verify_token (rotate_row example_state alice_session (''tokN'', ''refN'') 5000) 6000 ''tokA''
       = None
   \<and> refresh_token_user (rotate_row example_state alice_session (''tokN'', ''refN'') 5000)
         6000 (''tokM'', ''refM'') ''refA''
       = Inr (rotate_row example_state alice_session (''tokN'', ''refN'') 5000, None)"
proof -
  let ?st' = "rotate_row example_state alice_session (''tokN'', ''refN'') 5000"
  have r: "refresh_token_user example_state 5000 (''tokN'', ''refN'') ''refA''
             = Inr (?st', Some (token_dict alice (''tokN'', ''refN'')))"
    by (simp add: refresh_token_user_def example_defs rotate_row_def rotated_def token_dict_def
                  Let_def)
  have new: "fst (''tokN'', ''refN'') \<notin> token ` set (sessions example_state)"
            "snd (''tokN'', ''refN'') \<notin> refresh_token ` set (sessions example_state)"
    by (simp_all add: example_defs)
  from refresh_rotates_in_place [OF schema_ok_example r new]
  obtain s where s: "s \<in> set (sessions example_state)" "refresh_token s = ''refA''"
    and v: "\<forall>now'. verify_token ?st' now' (token s) = None"
    and f: "\<forall>now' toks'. refresh_token_user ?st' now' toks' ''refA'' = Inr (?st', None)"
    by blast
  have "s = alice_session" using s by (auto simp: example_defs)
  then have "token s = ''tokA''" by (simp add: example_defs)
  then show ?thesis using schema_ok_example r v f by auto
qed

subsection \<open>Login\<close>

text \<open>
  Claim C4. In a database that satisfies the schema, \<^verbatim>\<open>login\<close> gives one and the same
  answer, 401 with the detail \<open>Invalid username or password\<close> and the state unchanged,
  whenever no user has the given name, or the user is inactive, or the password does not
  verify: the three cases are the ways in which no active user with that name and a
  matching password exists. When such a user exists (and the generated tokens are new, so
  that the commit is accepted), \<^verbatim>\<open>login\<close> returns the token pair and appends one session
  that expires 24 hours later.
\<close>

theorem login_outcomes:
  assumes ok: "schema_ok st"
  shows "((\<forall>u \<in> set (users st). username u = username' \<longrightarrow>
             \<not> is_active u \<or> \<not> verify_password H password (password_hash u))
          \<longrightarrow> login H st now toks \<lparr>login_username = username', login_password = password\<rparr>
                = (st, Inl (HTTPException 401 ''Invalid username or password'')))
       \<and> (\<forall>u \<in> set (users st).
             username u = username' \<and> is_active u \<and> verify_password H password (password_hash u)
             \<and> fst toks \<notin> token ` set (sessions st)
             \<and> snd toks \<notin> refresh_token ` set (sessions st)
          \<longrightarrow> (\<exists>st'. login H st now toks \<lparr>login_username = username', login_password = password\<rparr>
                       = (st', Inr (token_dict u toks))
                    \<and> users st' = users st
                    \<and> sessions st' = sessions st @
                         [\<lparr>sess_id = next_id (map sess_id (sessions st)), user_id = uid u,
                           token = fst toks, refresh_token = snd toks, sess_created_at = now,
                           expires_at = now + hours24, sess_is_active = True\<rparr>]))"
proof (intro conjI impI ballI)
  assume fail: "\<forall>u \<in> set (users st). username u = username' \<longrightarrow>
                  \<not> is_active u \<or> \<not> verify_password H password (password_hash u)"
  show "login H st now toks \<lparr>login_username = username', login_password = password\<rparr>
          = (st, Inl (HTTPException 401 ''Invalid username or password''))"
  proof (cases "find (\<lambda>u. username u = username') (users st)")
    case None
    then show ?thesis by (simp add: login_def login_user_def)
  next
    case (Some u)
    from find_Some_mem [OF Some] fail
    have "\<not> is_active u \<or> \<not> verify_password H password (password_hash u)" by blast
    then show ?thesis using Some by (auto simp: login_def login_user_def)
  qed
next
  fix u
  assume u: "u \<in> set (users st)"
    and h: "username u = username' \<and> is_active u \<and> verify_password H password (password_hash u)
            \<and> fst toks \<notin> token ` set (sessions st)
            \<and> snd toks \<notin> refresh_token ` set (sessions st)"
  have "distinct (map username (users st))" using ok by (simp add: schema_ok_def)
  then have f: "find (\<lambda>x. username x = username') (users st) = Some u"
    using find_key [of username "users st" u] u h by auto
  show "\<exists>st'. login H st now toks \<lparr>login_username = username', login_password = password\<rparr>
                 = (st', Inr (token_dict u toks))
              \<and> users st' = users st
              \<and> sessions st' = sessions st @
                   [\<lparr>sess_id = next_id (map sess_id (sessions st)), user_id = uid u,
                     token = fst toks, refresh_token = snd toks, sess_created_at = now,
                     expires_at = now + hours24, sess_is_active = True\<rparr>]"
    using h by (simp add: login_def login_user_def f Let_def token_dict_def)
qed

lemma toy_password_checks:
  "verify_password toy_digest ''pw1'' ''ab:05'' = True"
  "verify_password toy_digest ''wrong'' ''ab:05'' = False"
  by (simp_all add: verify_password_def verify_password_try_def split_on_def hexdigest_def
                    hex_def hex_byte_def hexdigit_def toy_digest_def)

theorem login_outcomes_witness:
  "schema_ok example_state
   \<and> login toy_digest example_state 10 (''tokN'', ''refN'')
        \<lparr>login_username = ''nobody'', login_password = ''pw1''\<rparr>
      = (example_state, Inl (HTTPException 401 ''Invalid username or password''))
   \<and> login toy_digest example_state 10 (''tokN'', ''refN'')
        \<lparr>login_username = ''carol'', login_password = ''pw1''\<rparr>
      = (example_state, Inl (HTTPException 401 ''Invalid username or password''))
   \<and> login toy_digest example_state 10 (''tokN'', ''refN'')
        \<lparr>login_username = ''alice'', login_password = ''wrong''\<rparr>
      = (example_state, Inl (HTTPException 401 ''Invalid username or password''))
   \<and> (\<exists>st'. login toy_digest example_state 10 (''tokN'', ''refN'')
                \<lparr>login_username = ''alice'', login_password = ''pw1''\<rparr>
              = (st', Inr (token_dict alice (''tokN'', ''refN''))))"
proof -
  note lo = login_outcomes [OF schema_ok_example, of _ toy_digest _ 10 "(''tokN'', ''refN'')"]
  have absent: "\<forall>u \<in> set (users example_state). username u = ''nobody'' \<longrightarrow>
                  \<not> is_active u \<or> \<not> verify_password toy_digest ''pw1'' (password_hash u)"
    by (simp add: example_defs)
  have inactive: "\<forall>u \<in> set (users example_state). username u = ''carol'' \<longrightarrow>
                  \<not> is_active u \<or> \<not> verify_password toy_digest ''pw1'' (password_hash u)"
    by (simp add: example_defs)
  have mismatch: "\<forall>u \<in> set (users example_state). username u = ''alice'' \<longrightarrow>
                  \<not> is_active u \<or> \<not> verify_password toy_digest ''wrong'' (password_hash u)"
    by (simp add: example_defs toy_password_checks)
  have good: "alice \<in> set (users example_state)"
    "username alice = ''alice'' \<and> is_active alice
     \<and> verify_password toy_digest ''pw1'' (password_hash alice)
     \<and> fst (''tokN'', ''refN'') \<notin> token ` set (sessions example_state)
     \<and> snd (''tokN'', ''refN'') \<notin> refresh_token ` set (sessions example_state)"
    by (simp_all add: example_defs toy_password_checks)
  have 1: "login toy_digest example_state 10 (''tokN'', ''refN'')
             \<lparr>login_username = ''nobody'', login_password = ''pw1''\<rparr>
           = (example_state, Inl (HTTPException 401 ''Invalid username or password''))"
    using lo [of "''nobody''" "''pw1''"] absent by blast
  have 2: "login toy_digest example_state 10 (''tokN'', ''refN'')
             \<lparr>login_username = ''carol'', login_password = ''pw1''\<rparr>
           = (example_state, Inl (HTTPException 401 ''Invalid username or password''))"
    using lo [of "''carol''" "''pw1''"] inactive by blast
  have 3: "login toy_digest example_state 10 (''tokN'', ''refN'')
             \<lparr>login_username = ''alice'', login_password = ''wrong''\<rparr>
           = (example_state, Inl (HTTPException 401 ''Invalid username or password''))"
    using lo [of "''alice''" "''wrong''"] mismatch by blast
  have 4: "\<exists>st'. login toy_digest example_state 10 (''tokN'', ''refN'')
                \<lparr>login_username = ''alice'', login_password = ''pw1''\<rparr>
              = (st', Inr (token_dict alice (''tokN'', ''refN'')))"
    using lo [of "''alice''" "''pw1''"] good by blast
  show ?thesis using schema_ok_example 1 2 3 4 by blast
qed

subsection \<open>Read-only users\<close>

text \<open>
  Claim C6. Every write endpoint (create, update, delete, CSV import, bulk delete) has the
  dependency \<^verbatim>\<open>check_read_only\<close>. For every request whose token authenticates a user
  with \<open>is_read_only\<close> set, and for every payload, each of them ends with 403
  \<open>User has read-only access\<close>, which differs from every 401; the state is unchanged and
  no background task is scheduled.
\<close>

theorem read_only_user_forbidden:
  assumes "get_current_user st now authorization = Inr user" "au_is_read_only user"
  shows "create_student_endpoint st now authorization student
           = (st, Inl (HTTPException 403 ''User has read-only access''))
       \<and> update_student_endpoint st now authorization sid student_update
           = (st, Inl (HTTPException 403 ''User has read-only access''))
       \<and> delete_student_endpoint st now authorization sid
           = (st, Inl (HTTPException 403 ''User has read-only access''))
       \<and> import_csv_background st now authorization csv_file
           = ([], Inl (HTTPException 403 ''User has read-only access''))
       \<and> delete_students_bulk st now authorization student_ids
           = ([], Inl (HTTPException 403 ''User has read-only access''))
       \<and> HTTPException 403 ''User has read-only access'' \<noteq> HTTPException 401 detail"
proof -
  have "check_read_only st now authorization = Inl (HTTPException 403 ''User has read-only access'')"
    using assms by (simp add: check_read_only_def)
  then show ?thesis
    by (simp add: create_student_endpoint_def update_student_endpoint_def
                  delete_student_endpoint_def import_csv_background_def delete_students_bulk_def)
qed

lemma lower_Bearer: "lower ''Bearer'' = ''bearer''"
  by (simp add: lower_def lower_char_def char_of_def bit_Suc_0_iff)

lemma split_ws_bearer:
  "split_ws ''Bearer tokA'' = [''Bearer'', ''tokA'']"
  "split_ws ''Bearer tokB'' = [''Bearer'', ''tokB'']"
  by (simp_all add: split_ws_def isspace_def)

lemma current_user_bob:
  "get_current_user example_state 50 (Some ''Bearer tokB'') = Inr (auth_info bob)"
  by (simp add: get_current_user_def split_ws_bearer lower_Bearer verify_token_def
                example_defs auth_info_def)

theorem read_only_user_forbidden_witness:
  "get_current_user example_state 50 (Some ''Bearer tokB'') = Inr (auth_info bob)
   \<and> au_is_read_only (auth_info bob)
   \<and> create_student_endpoint example_state 50 (Some ''Bearer tokB'')
        \<lparr>new_last_name = ''Petrov'', new_first_name = ''Petr'', new_faculty = ''Physics'',
         new_course = ''Math'', new_score = 70\<rparr>
       = (example_state, Inl (HTTPException 403 ''User has read-only access''))
   \<and> delete_student_endpoint example_state 50 (Some ''Bearer tokB'') 1
       = (example_state, Inl (HTTPException 403 ''User has read-only access''))
   \<and> delete_students_bulk example_state 50 (Some ''Bearer tokB'') []
       = ([], Inl (HTTPException 403 ''User has read-only access''))"
proof -
  have ro: "au_is_read_only (auth_info bob)"
    by (simp add: auth_info_def bob_def)
  show ?thesis
    using read_only_user_forbidden [OF current_user_bob ro] current_user_bob ro
    by simp
qed

subsection \<open>Cache invalidation\<close>

text \<open>
  Every mutation invalidates the pattern \<open>cache:students*\<close>, which matches exactly the keys
  that start with \<open>cache:students\<close>: the keys of all-students, student-by-id, by-faculty
  and low-scores, but neither the key of unique courses nor the keys of the average score.
\<close>

lemma glob_literal_prefix:
  "CHR ''*'' \<notin> set p \<Longrightarrow> CHR ''?'' \<notin> set p \<Longrightarrow>
   glob_match (p @ ''*'') k \<longleftrightarrow> take (length p) k = p"
proof (induction p arbitrary: k)
  case Nil
  have "glob_match ''*'' k" for k by (induction k) auto
  then show ?case by simp
next
  case (Cons a p)
  then show ?case by (cases k) auto
qed

lemma students_keys_match:
  "glob_match ''cache:students*'' (make_cache_key khash (''students:'' @ e) params)"
proof -
  have "glob_match (''cache:students'' @ ''*'') (make_cache_key khash (''students:'' @ e) params)
          \<longleftrightarrow> take (length ''cache:students'') (make_cache_key khash (''students:'' @ e) params)
                = ''cache:students''"
    by (rule glob_literal_prefix) simp_all
  then show ?thesis
    by (simp add: make_cache_key_def split: option.splits)
qed

lemma other_keys_do_not_match:
  "\<not> glob_match ''cache:students*'' (make_cache_key khash ''courses:unique'' None)"
  "\<not> glob_match ''cache:students*'' (make_cache_key khash ''faculty:avg_score'' (Some p))"
proof -
  have g: "glob_match (''cache:students'' @ ''*'') k
          \<longleftrightarrow> take (length ''cache:students'') k = ''cache:students''" for k
    by (rule glob_literal_prefix) simp_all
  show "\<not> glob_match ''cache:students*'' (make_cache_key khash ''courses:unique'' None)"
    using g [of "make_cache_key khash ''courses:unique'' None"]
    by (simp add: make_cache_key_def)
  show "\<not> glob_match ''cache:students*'' (make_cache_key khash ''faculty:avg_score'' (Some p))"
    using g [of "make_cache_key khash ''faculty:avg_score'' (Some p)"]
    by (simp add: make_cache_key_def)
qed

lemma current_user_alice:
  "users st = users example_state \<Longrightarrow> sessions st = sessions example_state \<Longrightarrow>
   now \<le> 1000 \<Longrightarrow>
   get_current_user st now (Some ''Bearer tokA'') = Inr (auth_info alice)"
  by (simp add: get_current_user_def split_ws_def isspace_def lower_Bearer verify_token_def
                example_defs auth_info_def)

text \<open>
  Claim C1 does not hold of the code. On the example database, as the user alice: a first
  read of the unique courses returns \<open>Math\<close> and caches it; creating a student on the
  course \<open>Chemistry\<close> invalidates \<open>cache:students*\<close>, which leaves the entry
  \<open>cache:courses:unique\<close> in place; the next read, inside the entry's lifetime, returns the
  cached list, without \<open>Chemistry\<close>, although the table now holds both courses.
\<close>

theorem stale_unique_courses_after_create:
  "(let auth = Some ''Bearer tokA'';
        (st1, r1) = get_unique_courses_endpoint example_state 10 auth;
        (st2, r2) = create_student_endpoint st1 20 auth petrov;
        (st3, r3) = get_unique_courses_endpoint st2 30 auth
    in r1 = Inr (JList [JStr ''Math''])
       \<and> get_unique_courses st2 = [''Math'', ''Chemistry'']
       \<and> r3 = Inr (JList [JDict [(''course'', JStr ''Math'')]]))"
  by (simp add: get_unique_courses_endpoint_def create_student_endpoint_def check_read_only_def
                current_user_alice auth_info_def get_unique_courses_def make_cache_key_def
                cache_get_def cache_set_def invalidate_pattern_def create_student_def
                student_dict_def next_id_def CACHE_TTL_def petrov_def example_defs Let_def
                in_int64_def)

subsection \<open>The schema is an invariant\<close>

text \<open>
  Every operation that returns keeps the uniqueness constraints: the theorems that assume
  \<open>schema_ok\<close> speak of every database the program can reach from an empty one.
\<close>

lemma fold_max_ge: "(a::int) \<le> fold max xs a"
proof (induction xs arbitrary: a)
  case Nil
  then show ?case by simp
next
  case (Cons x xs)
  have "a \<le> max x a" by simp
  also have "\<dots> \<le> fold max xs (max x a)" by (rule Cons.IH)
  finally show ?case by simp
qed

lemma fold_max_upper: "x \<in> set xs \<Longrightarrow> (x::int) \<le> fold max xs a"
proof (induction xs arbitrary: a)
  case Nil
  then show ?case by simp
next
  case (Cons y ys)
  show ?case
  proof (cases "x = y")
    case True
    have "x \<le> max y a" using True by simp
    also have "\<dots> \<le> fold max ys (max y a)" by (rule fold_max_ge)
    finally show ?thesis by simp
  next
    case False
    then have "x \<in> set ys" using Cons.prems by simp
    then show ?thesis using Cons.IH by simp
  qed
qed

lemma next_id_fresh: "next_id ids \<notin> set ids"
proof
  assume "next_id ids \<in> set ids"
  then have "next_id ids \<le> fold max ids 0" by (rule fold_max_upper)
  then show False by (simp add: next_id_def)
qed

lemma schema_ok_register_user:
  assumes "schema_ok st" "register_user H st now rnd un em pw ro = (st', r)"
  shows "schema_ok st'"
proof (cases "find (\<lambda>u. username u = un \<or> email u = em) (users st)")
  case None
  then have new: "un \<notin> username ` set (users st)" "em \<notin> email ` set (users st)"
    by (auto simp: find_None_iff)
  have "next_id (map uid (users st)) \<notin> uid ` set (users st)"
    using next_id_fresh [of "map uid (users st)"] by simp
  then show ?thesis
    using assms None new by (auto simp: register_user_def schema_ok_def Let_def)
next
  case (Some u)
  then show ?thesis using assms by (simp add: register_user_def)
qed

lemma schema_ok_login_user:
  assumes "schema_ok st" "login_user H st now toks un pw = Inr (st', r)"
  shows "schema_ok st'"
proof -
  have "next_id (map sess_id (sessions st)) \<notin> sess_id ` set (sessions st)"
    using next_id_fresh [of "map sess_id (sessions st)"] by simp
  then show ?thesis
    using assms
    by (auto simp: login_user_def schema_ok_def Let_def split: option.splits if_splits)
qed

lemma schema_ok_refresh_token_user:
  assumes "schema_ok st" "refresh_token_user st now toks rt = Inr (st', r)"
  shows "schema_ok st'"
proof (cases r)
  case None
  then have "st' = st"
    using assms(2)
    by (auto simp: refresh_token_user_def Let_def split: option.splits if_splits)
  then show ?thesis using assms(1) by simp
next
  case (Some res)
  from refresh_inversion [OF assms(1) assms(2) [unfolded Some]]
  obtain s where "s \<in> set (sessions st)" "tokens_free st s toks" "st' = rotate_row st s toks now"
    by blast
  then show ?thesis using schema_ok_rotate_row [OF assms(1)] by simp
qed

lemma map_key_update_same:
  "(\<And>x. f (g x) = f x) \<Longrightarrow> map f (map (\<lambda>x. if P x then g x else x) xs) = map f xs"
  by (induction xs) auto

lemma schema_ok_logout_user:
  assumes "schema_ok st" "logout_user st t = (st', b)"
  shows "schema_ok st'"
proof (cases "find (\<lambda>s. token s = t) (sessions st)")
  case None
  then show ?thesis using assms by (simp add: logout_user_def)
next
  case (Some d)
  let ?m = "map (\<lambda>s. if sess_id s = sess_id d then s\<lparr>sess_is_active := False\<rparr> else s) (sessions st)"
  have st': "st' = st\<lparr>sessions := ?m\<rparr>"
    using assms(2) Some by (simp add: logout_user_def)
  have e: "map sess_id ?m = map sess_id (sessions st)" "map token ?m = map token (sessions st)"
       "map refresh_token ?m = map refresh_token (sessions st)"
    by (rule map_key_update_same, simp)+
  have d: "distinct (map sess_id ?m)" "distinct (map token ?m)" "distinct (map refresh_token ?m)"
    unfolding e using assms(1) by (simp_all add: schema_ok_def)
  show ?thesis using assms(1) d unfolding st' by (simp add: schema_ok_def)
qed

lemma schema_ok_create_student:
  assumes "schema_ok st" "create_student st ln fn fa co sc = Inr (st', r)"
  shows "schema_ok st'"
proof -
  have "next_id (map student_id (students st)) \<notin> student_id ` set (students st)"
    using next_id_fresh [of "map student_id (students st)"] by simp
  then show ?thesis
    using assms by (auto simp: create_student_def schema_ok_def Let_def split: if_splits)
qed

lemma schema_ok_update_student:
  assumes "schema_ok st" "update_student st sid kwargs = Inr (st', r)"
  shows "schema_ok st'"
proof (cases "find (\<lambda>s. student_id s = sid) (students st)")
  case None
  then show ?thesis
    using assms by (auto simp: update_student_def split: if_splits)
next
  case (Some s)
  let ?m = "map (\<lambda>x. if student_id x = student_id s then apply_kwargs s kwargs else x) (students st)"
  have e: "map student_id ?m = map student_id (students st)"
    by (induction "students st") (auto simp: apply_kwargs_fields)
  have d: "distinct (map student_id ?m)"
    unfolding e using assms(1) by (simp add: schema_ok_def)
  have "st' = st\<lparr>students := ?m\<rparr>"
    using assms(2) Some by (auto simp: update_student_def Let_def split: if_splits)
  then show ?thesis using assms(1) d by (simp add: schema_ok_def)
qed

lemma schema_ok_delete_student:
  assumes "schema_ok st" "delete_student st sid = Inr (st', b)"
  shows "schema_ok st'"
  using assms
  by (auto simp: delete_student_def schema_ok_def distinct_map_filter
           split: option.splits if_splits)

subsection \<open>A token that is not stored does not come back by itself\<close>

text \<open>
  A token held by no row authenticates nobody, and no operation stores it again unless it
  is drawn again: after a rotation the old access token stays invalid through every later
  login, refresh and logout whose draws differ from it.
\<close>

lemma verify_token_absent:
  "t \<notin> token ` set (sessions st) \<Longrightarrow> verify_token st now t = None"
proof -
  assume "t \<notin> token ` set (sessions st)"
  then have "find (\<lambda>s. token s = t \<and> sess_is_active s) (sessions st) = None"
    by (auto simp: find_None_iff)
  then show ?thesis by (simp add: verify_token_def)
qed

lemma token_absent_login_user:
  assumes "t \<notin> token ` set (sessions st)" "fst toks \<noteq> t"
    and "login_user H st now toks un pw = Inr (st', r)"
  shows "t \<notin> token ` set (sessions st')"
  using assms by (auto simp: login_user_def Let_def split: option.splits if_splits)

lemma token_absent_refresh_token_user:
  assumes "t \<notin> token ` set (sessions st)" "fst toks \<noteq> t"
    and "refresh_token_user st now toks rt = Inr (st', r)"
  shows "t \<notin> token ` set (sessions st')"
  using assms
  by (auto simp: refresh_token_user_def Let_def split: option.splits if_splits)

lemma token_absent_logout_user:
  assumes "t \<notin> token ` set (sessions st)" "logout_user st t' = (st', b)"
  shows "t \<notin> token ` set (sessions st')"
  using assms by (auto simp: logout_user_def split: option.splits if_splits)

end
